theory Spec2Isabelle
  imports Complex_Main "HOL-Library.Multiset"
begin

section \<open>Data model\<close>

text \<open>
  The question objects of the data module. The field \<open>image\<close> of the source is named
  \<open>image_src\<close> here, since \<open>image\<close> is a constant of HOL.
\<close>

record answer_option =
  label :: string
  image_src :: string
  isCorrect :: bool

record question =
  color :: string
  options :: "answer_option list"

text \<open>
  The object literal \<open>gameResult\<close> built by \<open>saveGameResult\<close>. Its fields carry the
  suffix \<open>_r\<close>, because \<open>score\<close> and \<open>gameMode\<close> are also state variables of the
  screens and \<open>id\<close> is a constant of HOL. GameScreen writes the first six fields only,
  so the last three are optional.
\<close>

record game_result =
  id_r :: int
  score_r :: nat
  totalQuestions_r :: nat
  percentage_r :: "nat option"
  date_r :: string
  time_r :: string
  gameMode_r :: "string option"
  duration_r :: "int option"
  timeBonus_r :: "int option"

text \<open>
  The text stored under the key \<open>colorquest-history\<close>. The program touches it only
  through \<open>JSON.parse\<close>, \<open>JSON.stringify\<close> and a truthiness test, so a text is
  represented by what these do with it: the empty text (falsy), a non-empty text that
  \<open>JSON.parse\<close> rejects, or the text \<open>JSON.stringify\<close> produces for a list of
  results, which \<open>JSON.parse\<close> reads back as that list. Texts that parse to a value
  other than an array of result objects (such as \<open>null\<close> or \<open>[null]\<close>) are not
  represented: nothing below speaks about them.
\<close>

datatype persisted = EmptyText | Malformed | Serialized "game_result list"

datatype js_error = SyntaxError

definition JSON_parse :: "persisted \<Rightarrow> js_error + game_result list" where
  "JSON_parse p = (case p of
       EmptyText \<Rightarrow> Inl SyntaxError
     | Malformed \<Rightarrow> Inl SyntaxError
     | Serialized h \<Rightarrow> Inr h)"

definition JSON_stringify :: "game_result list \<Rightarrow> persisted" where
  "JSON_stringify h = Serialized h"

text \<open>Truthiness of the value \<open>localStorage.getItem\<close> returns: \<open>null\<close> and the empty
  string are falsy.\<close>

definition truthy_item :: "persisted option \<Rightarrow> bool" where
  "truthy_item v = (case v of None \<Rightarrow> False | Some EmptyText \<Rightarrow> False | Some _ \<Rightarrow> True)"

text \<open>The readings \<open>Date.now()\<close>, \<open>toLocaleDateString()\<close> and \<open>toLocaleTimeString()\<close>
  taken while a callback runs.\<close>

record clock =
  now :: int
  localeDate :: string
  localeTime :: string

text \<open>
  \<open>Math.round((finalScore / questions.length) * 100)\<close> is computed in IEEE doubles. A
  double is represented by the rational number it stands for. \<open>to_double\<close> rounds a
  positive rational to the nearest double, ties to the even significand of 53 bits
  (the operands here lie far inside the normal range, so there is neither overflow nor
  a subnormal result); a division or a multiplication of doubles is the exact
  operation followed by \<open>to_double\<close>. The two operands are integers below \<open>2^53\<close> and
  so are doubles themselves.
\<close>

fun bit_length :: "nat \<Rightarrow> nat" where
  "bit_length n = (if n = 0 then 0 else Suc (bit_length (n div 2)))"

declare bit_length.simps [simp del]

definition pow2 :: "int \<Rightarrow> rat" where
  "pow2 e = (if 0 \<le> e then 2 ^ nat e else 1 / 2 ^ nat (- e))"

text \<open>The integer \<open>l\<close> with \<open>2^l \<le> x < 2^(l + 1)\<close>, for a positive \<open>x\<close>.\<close>

definition floor_log2 :: "rat \<Rightarrow> int" where
  "floor_log2 x =
     (if 1 \<le> x then int (bit_length (nat \<lfloor>x\<rfloor>)) - 1
      else - int (bit_length (nat \<lceil>1 / x\<rceil> - 1)))"

definition round_half_even :: "rat \<Rightarrow> int" where
  "round_half_even m =
     (let f = \<lfloor>m\<rfloor>; r = m - of_int f
      in if r < 1 / 2 then f else if 1 / 2 < r then f + 1 else if even f then f else f + 1)"

definition to_double :: "rat \<Rightarrow> rat" where
  "to_double x =
     (if x = 0 then 0
      else (let e = floor_log2 x - 52 in of_int (round_half_even (x / pow2 e)) * pow2 e))"

text \<open>\<open>Math.round\<close>: the nearest integer, a tie going up.\<close>

definition Math_round :: "rat \<Rightarrow> int" where
  "Math_round x = \<lfloor>x + 1 / 2\<rfloor>"

text \<open>With no questions the quotient is \<open>NaN\<close> or \<open>Infinity\<close> and so is the
  percentage (\<open>null\<close> once stored): that is \<open>None\<close>.\<close>

definition percentage :: "nat \<Rightarrow> nat \<Rightarrow> nat option" where
  "percentage finalScore n =
     (if n = 0 then None
      else Some (nat (Math_round
             (to_double (to_double (of_nat finalScore / of_nat n) * 100)))))"

section \<open>Component state\<close>

text \<open>The eight state variables that GameScreen and EnhancedGameScreen both declare.\<close>

record quiz =
  currentIndex :: nat
  feedback :: string
  isFinished :: bool
  showFeedback :: bool
  isTransitioning :: bool
  score :: nat
  questions :: "question list"
  selectedOption :: "nat option"

record game = quiz +
  showHistory :: bool
  gameHistory :: "game_result list"

record mode_settings =
  timeLimit :: "nat option"
  showTimer :: bool
  autoAdvance :: bool
  feedbackDuration :: nat
  questionTime :: "nat option"

record enhanced = quiz +
  gameMode :: string
  timeLeft :: int
  totalTime :: int
  gameStartTime :: "int option"
  modeSettings :: mode_settings

text \<open>
  A pending \<open>setTimeout\<close> of \<open>handleSelect\<close>. The callback is a closure of the render
  in which the option was clicked: it reads the state variables of that render (kept
  here as a snapshot of the component state) and the argument \<open>isCorrect\<close>, while its
  setters write the current state. \<open>Feedback\<close> is the outer timeout (the feedback
  duration), \<open>Transition\<close> the inner one (400 ms).
\<close>

datatype 'r timer = Feedback bool 'r | Transition bool 'r

text \<open>The component together with the browser around it: its pending timeouts and the
  entry \<open>colorquest-history\<close> of \<open>localStorage\<close> (\<open>None\<close> when the key is absent).\<close>

record 'r browser =
  screen :: 'r
  timeouts :: "'r timer list"
  localStorage :: "persisted option"

datatype event =
    Click nat
  | Timeout nat clock
  | Tick
  | SpeedTick clock

section \<open>EnhancedGameScreen\<close>

text \<open>\<open>searchParams.get('mode') || 'classic'\<close>: a missing or empty parameter is classic.\<close>

definition gameMode_of :: "string option \<Rightarrow> string" where
  "gameMode_of p = (case p of None \<Rightarrow> ''classic'' | Some m \<Rightarrow> if m = [] then ''classic'' else m)"

definition initial_enhanced :: "string \<Rightarrow> enhanced" where
  "initial_enhanced m =
     \<lparr> currentIndex = 0, feedback = [], isFinished = False, showFeedback = False,
       isTransitioning = False, score = 0, questions = [], selectedOption = None,
       gameMode = m, timeLeft = 0, totalTime = 0, gameStartTime = None,
       modeSettings = \<lparr> timeLimit = None, showTimer = False, autoAdvance = True,
                        feedbackDuration = 1800, questionTime = None \<rparr> \<rparr>"

definition initializeGameMode :: "enhanced \<Rightarrow> enhanced" where
  "initializeGameMode r =
     (if gameMode r = ''timed'' then
        r\<lparr> modeSettings := \<lparr> timeLimit = Some 60, showTimer = True, autoAdvance = True,
                              feedbackDuration = 1000, questionTime = None \<rparr>,
           timeLeft := 60, totalTime := 60 \<rparr>
      else if gameMode r = ''speed'' then
        r\<lparr> modeSettings := \<lparr> timeLimit = None, showTimer = True, autoAdvance = True,
                              feedbackDuration = 800, questionTime = None \<rparr>,
           timeLeft := 0, totalTime := 0 \<rparr>
      else if gameMode r = ''hard'' then
        r\<lparr> modeSettings := \<lparr> timeLimit = Some 90, showTimer = True, autoAdvance = True,
                              feedbackDuration = 1200, questionTime = Some 15 \<rparr>,
           timeLeft := 90, totalTime := 90 \<rparr>
      else
        r\<lparr> modeSettings := \<lparr> timeLimit = None, showTimer = False, autoAdvance = True,
                              feedbackDuration = 1800, questionTime = None \<rparr> \<rparr>)"

text \<open>The mount effect: \<open>initializeGameMode()\<close>, \<open>setQuestions(getShuffledQuestions())\<close>,
  \<open>setGameStartTime(Date.now())\<close>. The shuffled questions are the argument \<open>qs\<close>.\<close>

definition mount_enhanced ::
  "string option \<Rightarrow> question list \<Rightarrow> clock \<Rightarrow> persisted option \<Rightarrow> enhanced browser" where
  "mount_enhanced p qs c st =
     \<lparr> screen = (initializeGameMode (initial_enhanced (gameMode_of p)))
                  \<lparr> questions := qs, gameStartTime := Some (now c) \<rparr>,
       timeouts = [], localStorage = st \<rparr>"

text \<open>Truthiness of \<open>modeSettings.timeLimit\<close> and of \<open>gameStartTime\<close>: \<open>null\<close> and 0 are
  falsy.\<close>

definition truthy_nat :: "nat option \<Rightarrow> bool" where
  "truthy_nat v = (case v of None \<Rightarrow> False | Some n \<Rightarrow> n \<noteq> 0)"

definition truthy_int :: "int option \<Rightarrow> bool" where
  "truthy_int v = (case v of None \<Rightarrow> False | Some n \<Rightarrow> n \<noteq> 0)"

text \<open>
  \<open>saveGameResult\<close> of EnhancedGameScreen, as seen by a closure of the render \<open>r\<close>
  (the callback depends on \<open>questions.length\<close>, \<open>gameMode\<close> and \<open>gameStartTime\<close>).
  It reads the stored text at the time of the call; \<open>JSON.parse\<close> is not guarded, so
  its exception leaves the function. Both calls of \<open>Date.now()\<close> read the same instant.
\<close>

definition gameResult_enhanced :: "enhanced \<Rightarrow> nat \<Rightarrow> clock \<Rightarrow> game_result" where
  "gameResult_enhanced r finalScore c =
     (let duration = (if truthy_int (gameStartTime r)
                      then (now c - the (gameStartTime r)) div 1000 else 0)
      in \<lparr> id_r = now c, score_r = finalScore, totalQuestions_r = length (questions r),
           percentage_r = percentage finalScore (length (questions r)),
           date_r = localeDate c, time_r = localeTime c,
           gameMode_r = Some (gameMode r), duration_r = Some duration,
           timeBonus_r = Some (if gameMode r = ''speed'' then max 0 (300 - duration) else 0) \<rparr>)"

definition saveGameResult_enhanced ::
  "enhanced \<Rightarrow> nat \<Rightarrow> clock \<Rightarrow> persisted option \<Rightarrow> js_error + persisted option" where
  "saveGameResult_enhanced r finalScore c savedHistory =
     (case (if truthy_item savedHistory then JSON_parse (the savedHistory) else Inr []) of
        Inl e \<Rightarrow> Inl e
      | Inr history \<Rightarrow>
          Inr (Some (JSON_stringify (take 50 (gameResult_enhanced r finalScore c # history)))))"

text \<open>\<open>handleSelect\<close>: the setters, then the outer \<open>setTimeout\<close>. The texts of
  \<open>feedback\<close> are given without their leading emoji.\<close>

definition handleSelect_enhanced :: "bool \<Rightarrow> nat \<Rightarrow> enhanced browser \<Rightarrow> enhanced browser" where
  "handleSelect_enhanced correct optionIndex w =
     (let r = screen w in
      w\<lparr> screen := r\<lparr> selectedOption := Some optionIndex,
                       score := (if correct then score r + 1 else score r),
                       feedback := (if correct then ''Correct! Amazing!'' else ''Wrong Answer!''),
                       showFeedback := True \<rparr>,
         timeouts := timeouts w @ [Feedback correct r] \<rparr>)"

text \<open>The inner timeout of \<open>handleSelect\<close>, a closure of the render \<open>r\<close>. When
  \<open>saveGameResult\<close> throws, the callback ends there and \<open>setIsFinished\<close> is not
  reached.\<close>

definition advance_enhanced :: "bool \<Rightarrow> enhanced \<Rightarrow> clock \<Rightarrow> enhanced browser \<Rightarrow> enhanced browser" where
  "advance_enhanced correct r c w =
     (if currentIndex r + 1 < length (questions r) then
        w\<lparr> screen := (screen w)\<lparr> currentIndex := currentIndex r + 1, feedback := [],
                                  showFeedback := False, isTransitioning := False,
                                  selectedOption := None \<rparr> \<rparr>
      else
        (let finalScore = (if correct then score r + 1 else score r) in
         case saveGameResult_enhanced r finalScore c (localStorage w) of
           Inl e \<Rightarrow> w
         | Inr st \<Rightarrow> w\<lparr> localStorage := st, screen := (screen w)\<lparr> isFinished := True \<rparr> \<rparr>))"

text \<open>Firing the \<open>k\<close>-th pending timeout. The outer timeout sets \<open>isTransitioning\<close> and
  starts the inner one.\<close>

definition drop_nth :: "nat \<Rightarrow> 'a list \<Rightarrow> 'a list" where
  "drop_nth k xs = take k xs @ drop (Suc k) xs"

definition timeout_enhanced :: "nat \<Rightarrow> clock \<Rightarrow> enhanced browser \<Rightarrow> enhanced browser" where
  "timeout_enhanced k c w =
     (if k < length (timeouts w) then
        (case timeouts w ! k of
           Feedback correct r \<Rightarrow>
             w\<lparr> screen := (screen w)\<lparr> isTransitioning := True \<rparr>,
                timeouts := drop_nth k (timeouts w) @ [Transition correct r] \<rparr>
         | Transition correct r \<Rightarrow>
             advance_enhanced correct r c (w\<lparr> timeouts := drop_nth k (timeouts w) \<rparr>))
      else w)"

text \<open>
  Which screen is rendered: the loading screen when \<open>questions[currentIndex]\<close> is
  undefined, else the completion screen when \<open>isFinished\<close>, else the question with its
  option buttons. A button carries \<open>disabled={selectedOption !== null}\<close>; a click on
  a disabled or absent button does not reach \<open>handleSelect\<close>.
\<close>

definition shows_question :: "'a quiz_scheme \<Rightarrow> bool" where
  "shows_question r = (currentIndex r < length (questions r) \<and> \<not> isFinished r)"

definition button_enabled :: "'a quiz_scheme \<Rightarrow> nat \<Rightarrow> bool" where
  "button_enabled r i =
     (shows_question r \<and> i < length (options (questions r ! currentIndex r))
      \<and> selectedOption r = None)"

definition click_enhanced :: "nat \<Rightarrow> enhanced browser \<Rightarrow> enhanced browser" where
  "click_enhanced i w =
     (if button_enabled (screen w) i
      then handleSelect_enhanced
             (isCorrect (options (questions (screen w) ! currentIndex (screen w)) ! i)) i w
      else w)"

text \<open>The countdown effect: an interval of 1000 ms runs while the time limit is
  truthy, \<open>timeLeft > 0\<close> and the game is not finished; its callback is one \<open>Tick\<close>.\<close>

definition countdown_running :: "enhanced \<Rightarrow> bool" where
  "countdown_running r =
     (truthy_nat (timeLimit (modeSettings r)) \<and> timeLeft r > 0 \<and> \<not> isFinished r)"

definition tick :: "enhanced browser \<Rightarrow> enhanced browser" where
  "tick w =
     (let r = screen w in
      if countdown_running r then
        (if timeLeft r \<le> 1 then w\<lparr> screen := r\<lparr> isFinished := True, timeLeft := 0 \<rparr> \<rparr>
         else w\<lparr> screen := r\<lparr> timeLeft := timeLeft r - 1 \<rparr> \<rparr>)
      else w)"

text \<open>The count-up effect of speed mode (an interval of 100 ms).\<close>

definition speed_tick :: "clock \<Rightarrow> enhanced browser \<Rightarrow> enhanced browser" where
  "speed_tick c w =
     (let r = screen w in
      if gameMode r = ''speed'' \<and> \<not> isFinished r \<and> truthy_int (gameStartTime r)
      then w\<lparr> screen := r\<lparr> timeLeft := (now c - the (gameStartTime r)) div 1000 \<rparr> \<rparr>
      else w)"

fun step_enhanced :: "event \<Rightarrow> enhanced browser \<Rightarrow> enhanced browser" where
  "step_enhanced (Click i) w = click_enhanced i w"
| "step_enhanced (Timeout k c) w = timeout_enhanced k c w"
| "step_enhanced Tick w = tick w"
| "step_enhanced (SpeedTick c) w = speed_tick c w"

fun run_enhanced :: "enhanced browser \<Rightarrow> event list \<Rightarrow> enhanced browser" where
  "run_enhanced w [] = w"
| "run_enhanced w (e # es) = run_enhanced (step_enhanced e w) es"

section \<open>GameScreen\<close>

definition initial_game :: game where
  "initial_game =
     \<lparr> currentIndex = 0, feedback = [], isFinished = False, showFeedback = False,
       isTransitioning = False, score = 0, questions = [], selectedOption = None,
       showHistory = False, gameHistory = [] \<rparr>"

text \<open>The second mount effect of GameScreen: when the stored text is truthy it is
  parsed, unguarded, and becomes \<open>gameHistory\<close>; otherwise the state is untouched.\<close>

definition load_history_game :: "persisted option \<Rightarrow> game \<Rightarrow> js_error + game" where
  "load_history_game savedHistory r =
     (if truthy_item savedHistory then
        (case JSON_parse (the savedHistory) of
           Inl e \<Rightarrow> Inl e
         | Inr h \<Rightarrow> Inr (r\<lparr> gameHistory := h \<rparr>))
      else Inr r)"

text \<open>Mounting GameScreen: \<open>setQuestions(getShuffledQuestions())\<close>, then the load
  effect. An exception of the effect takes the component down.\<close>

definition mount_game :: "question list \<Rightarrow> persisted option \<Rightarrow> js_error + game browser" where
  "mount_game qs st =
     (case load_history_game st (initial_game\<lparr> questions := qs \<rparr>) of
        Inl e \<Rightarrow> Inl e
      | Inr r \<Rightarrow> Inr \<lparr> screen = r, timeouts = [], localStorage = st \<rparr>)"

text \<open>The mount effect of StatisticsPage, as far as \<open>gameHistory\<close> goes. The state
  starts as the empty list. After \<open>setGameHistory(history)\<close> the effect calls
  \<open>calculateStatistics(history)\<close>, which on a list of results only computes the
  figures of the page and raises nothing; these figures are left out.\<close>

definition load_history_statistics :: "persisted option \<Rightarrow> js_error + game_result list" where
  "load_history_statistics savedHistory =
     (if truthy_item savedHistory then JSON_parse (the savedHistory) else Inr [])"

text \<open>\<open>saveGameResult\<close> of GameScreen, as seen by a closure of the render \<open>r\<close>: the
  new result is put in front of the \<open>gameHistory\<close> of that render, and the list cut
  to 10 is written to the state and to the store. The store is not read.\<close>

definition gameResult_game :: "game \<Rightarrow> nat \<Rightarrow> clock \<Rightarrow> game_result" where
  "gameResult_game r finalScore c =
     \<lparr> id_r = now c, score_r = finalScore, totalQuestions_r = length (questions r),
       percentage_r = percentage finalScore (length (questions r)),
       date_r = localeDate c, time_r = localeTime c,
       gameMode_r = None, duration_r = None, timeBonus_r = None \<rparr>"

definition saveGameResult_game :: "game \<Rightarrow> nat \<Rightarrow> clock \<Rightarrow> game browser \<Rightarrow> game browser" where
  "saveGameResult_game r finalScore c w =
     (let updatedHistory = take 10 (gameResult_game r finalScore c # gameHistory r) in
      w\<lparr> screen := (screen w)\<lparr> gameHistory := updatedHistory \<rparr>,
         localStorage := Some (JSON_stringify updatedHistory) \<rparr>)"

definition handleSelect_game :: "bool \<Rightarrow> nat \<Rightarrow> game browser \<Rightarrow> game browser" where
  "handleSelect_game correct optionIndex w =
     (let r = screen w in
      w\<lparr> screen := r\<lparr> selectedOption := Some optionIndex,
                       score := (if correct then score r + 1 else score r),
                       feedback := (if correct then ''Correct! Amazing!'' else ''Wrong! Answer''),
                       showFeedback := True \<rparr>,
         timeouts := timeouts w @ [Feedback correct r] \<rparr>)"

definition advance_game :: "bool \<Rightarrow> game \<Rightarrow> clock \<Rightarrow> game browser \<Rightarrow> game browser" where
  "advance_game correct r c w =
     (if currentIndex r + 1 < length (questions r) then
        w\<lparr> screen := (screen w)\<lparr> currentIndex := currentIndex r + 1, feedback := [],
                                  showFeedback := False, isTransitioning := False,
                                  selectedOption := None \<rparr> \<rparr>
      else
        (let finalScore = (if correct then score r + 1 else score r);
             w' = saveGameResult_game r finalScore c w
         in w'\<lparr> screen := (screen w')\<lparr> isFinished := True \<rparr> \<rparr>))"

definition timeout_game :: "nat \<Rightarrow> clock \<Rightarrow> game browser \<Rightarrow> game browser" where
  "timeout_game k c w =
     (if k < length (timeouts w) then
        (case timeouts w ! k of
           Feedback correct r \<Rightarrow>
             w\<lparr> screen := (screen w)\<lparr> isTransitioning := True \<rparr>,
                timeouts := drop_nth k (timeouts w) @ [Transition correct r] \<rparr>
         | Transition correct r \<Rightarrow>
             advance_game correct r c (w\<lparr> timeouts := drop_nth k (timeouts w) \<rparr>))
      else w)"

definition click_game :: "nat \<Rightarrow> game browser \<Rightarrow> game browser" where
  "click_game i w =
     (if button_enabled (screen w) i
      then handleSelect_game
             (isCorrect (options (questions (screen w) ! currentIndex (screen w)) ! i)) i w
      else w)"

text \<open>GameScreen has no interval, so the two tick events leave it as it is.\<close>

fun step_game :: "event \<Rightarrow> game browser \<Rightarrow> game browser" where
  "step_game (Click i) w = click_game i w"
| "step_game (Timeout k c) w = timeout_game k c w"
| "step_game Tick w = w"
| "step_game (SpeedTick c) w = w"


section \<open>Play Again\<close>


definition handleRestart_game :: "question list \<Rightarrow> game browser \<Rightarrow> game browser" where
  "handleRestart_game qs w =
     w\<lparr> screen := (screen w)\<lparr> currentIndex := 0, score := 0, feedback := [],
                               isFinished := False, showFeedback := False,
                               isTransitioning := False, showHistory := False,
                               selectedOption := None, questions := qs \<rparr> \<rparr>"

definition shows_completion :: "'a quiz_scheme \<Rightarrow> bool" where
  "shows_completion r = (currentIndex r < length (questions r) \<and> isFinished r)"


definition play_again_game :: "question list \<Rightarrow> game browser \<Rightarrow> game browser" where
  "play_again_game qs w =
     (if shows_completion (screen w) then handleRestart_game qs w else w)"


section \<open>A game played to the last question\<close>





section \<open>Counting the correct selections of a run\<close>

text \<open>An event is a correct selection when it is a click on an enabled button whose
  option has \<open>isCorrect\<close>.\<close>

definition correct_select :: "event \<Rightarrow> 'a quiz_scheme \<Rightarrow> bool" where
  "correct_select e r =
     (case e of
        Click i \<Rightarrow> button_enabled r i \<and> isCorrect (options (questions r ! currentIndex r) ! i)
      | _ \<Rightarrow> False)"

fun correct_selects_enhanced :: "enhanced browser \<Rightarrow> event list \<Rightarrow> nat" where
  "correct_selects_enhanced w [] = 0"
| "correct_selects_enhanced w (e # es) =
     (if correct_select e (screen w) then 1 else 0)
       + correct_selects_enhanced (step_enhanced e w) es"

fun correct_selects_game :: "game browser \<Rightarrow> event list \<Rightarrow> nat" where
  "correct_selects_game w [] = 0"
| "correct_selects_game w (e # es) =
     (if correct_select e (screen w) then 1 else 0)
       + correct_selects_game (step_game e w) es"

section \<open>Successive appends\<close>

text \<open>Calls of \<open>saveGameResult\<close> one after the other, each with its final score and
  clock. In GameScreen each call is made from the render that follows the previous
  one; in EnhancedGameScreen the first exception ends the sequence.\<close>

fun saves_game :: "game browser \<Rightarrow> (nat \<times> clock) list \<Rightarrow> game browser" where
  "saves_game w [] = w"
| "saves_game w ((finalScore, c) # xs) =
     saves_game (saveGameResult_game (screen w) finalScore c w) xs"

fun saves_enhanced ::
  "enhanced \<Rightarrow> persisted option \<Rightarrow> (nat \<times> clock) list \<Rightarrow> js_error + persisted option" where
  "saves_enhanced r st [] = Inr st"
| "saves_enhanced r st ((finalScore, c) # xs) =
     (case saveGameResult_enhanced r finalScore c st of
        Inl e \<Rightarrow> Inl e
      | Inr st' \<Rightarrow> saves_enhanced r st' xs)"

section \<open>The data module: shuffling\<close>

text \<open>
  Whether \<open>getShuffledQuestions\<close> leaves the source dataset alone depends on which
  arrays and objects are new, so the data module runs on an explicit store. A reference is an index of the store
  and allocation appends to it. An array holds the references of its elements, a
  question object its colour and the reference of its array of options.
\<close>

datatype obj =
    Arr "nat list"
  | Question_obj string nat
  | Option_obj answer_option

type_synonym store = "obj list"

definition lookup :: "store \<Rightarrow> nat \<Rightarrow> obj option" where
  "lookup h a = (if a < length h then Some (h ! a) else None)"

definition alloc :: "obj \<Rightarrow> store \<Rightarrow> nat \<times> store" where
  "alloc v h = (length h, h @ [v])"

text \<open>\<open>[shuffled[i], shuffled[j]] = [shuffled[j], shuffled[i]]\<close> on the array at
  reference \<open>b\<close>: both elements are read, then written.\<close>

definition swap_at :: "nat \<Rightarrow> nat \<Rightarrow> nat \<Rightarrow> store \<Rightarrow> store" where
  "swap_at b i j h =
     (case lookup h b of
        Some (Arr xs) \<Rightarrow> h[b := Arr (xs[i := xs ! j, j := xs ! i])]
      | _ \<Rightarrow> h)"

text \<open>
  The loop of \<open>shuffleArray\<close>, for \<open>i\<close> down to 1. The successive values of
  \<open>Math.random()\<close> are \<open>rnd n\<close>, \<open>rnd (n + 1)\<close>, ...; the loop returns the next
  unused position. \<open>j\<close> is \<open>Math.floor(Math.random() * (i + 1))\<close>.
\<close>

fun shuffle_loop :: "(nat \<Rightarrow> real) \<Rightarrow> nat \<Rightarrow> nat \<Rightarrow> nat \<Rightarrow> store \<Rightarrow> nat \<times> store" where
  "shuffle_loop rnd 0 n b h = (n, h)"
| "shuffle_loop rnd (Suc i) n b h =
     (let j = nat \<lfloor>rnd n * real (Suc i + 1)\<rfloor>
      in shuffle_loop rnd i (Suc n) b (swap_at b (Suc i) j h))"

text \<open>\<open>shuffleArray\<close>: the spread \<open>[...array]\<close> allocates the copy (a
  \<open>TypeError\<close>, here \<open>None\<close>, when the argument is not an array), the loop swaps
  inside the copy, and the reference of the copy is returned.\<close>

definition shuffleArray ::
  "(nat \<Rightarrow> real) \<Rightarrow> nat \<Rightarrow> nat \<Rightarrow> store \<Rightarrow> (nat \<times> nat \<times> store) option" where
  "shuffleArray rnd n a h =
     (case lookup h a of
        Some (Arr xs) \<Rightarrow>
          (let (shuffled, h1) = alloc (Arr xs) h;
               (n', h2) = shuffle_loop rnd (length xs - 1) n shuffled h1
           in Some (shuffled, n', h2))
      | _ \<Rightarrow> None)"

text \<open>The callback of \<open>map\<close> over the shuffled questions: a new object with the
  properties of \<open>question\<close> and the shuffled copy of its options.\<close>

fun map_questions ::
  "(nat \<Rightarrow> real) \<Rightarrow> nat \<Rightarrow> nat list \<Rightarrow> store \<Rightarrow> (nat list \<times> nat \<times> store) option" where
  "map_questions rnd n [] h = Some ([], n, h)"
| "map_questions rnd n (q # qs) h =
     (case lookup h q of
        Some (Question_obj c opts) \<Rightarrow>
          (case shuffleArray rnd n opts h of
             None \<Rightarrow> None
           | Some (opts', n1, h1) \<Rightarrow>
               (let (q', h2) = alloc (Question_obj c opts') h1 in
                case map_questions rnd n1 qs h2 of
                  None \<Rightarrow> None
                | Some (qs', n2, h3) \<Rightarrow> Some (q' # qs', n2, h3)))
      | _ \<Rightarrow> None)"

text \<open>\<open>getShuffledQuestions\<close>, with the reference of \<open>staticQuestions\<close> as argument.\<close>

definition getShuffledQuestions ::
  "(nat \<Rightarrow> real) \<Rightarrow> nat \<Rightarrow> nat \<Rightarrow> store \<Rightarrow> (nat \<times> nat \<times> store) option" where
  "getShuffledQuestions rnd n staticQuestions h =
     (case shuffleArray rnd n staticQuestions h of
        None \<Rightarrow> None
      | Some (shuffledQuestions, n1, h1) \<Rightarrow>
          (case lookup h1 shuffledQuestions of
             Some (Arr qs) \<Rightarrow>
               (case map_questions rnd n1 qs h1 of
                  None \<Rightarrow> None
                | Some (qs', n2, h2) \<Rightarrow>
                    (let (result, h3) = alloc (Arr qs') h2 in Some (result, n2, h3)))
           | _ \<Rightarrow> None))"

text \<open>Reading a dataset out of the store, as the screens do when they use
  \<open>questions[currentIndex].options[i]\<close>.\<close>

definition read_option :: "store \<Rightarrow> nat \<Rightarrow> answer_option option" where
  "read_option h a = (case lookup h a of Some (Option_obj v) \<Rightarrow> Some v | _ \<Rightarrow> None)"

fun read_all :: "(nat \<Rightarrow> 'a option) \<Rightarrow> nat list \<Rightarrow> 'a list option" where
  "read_all f [] = Some []"
| "read_all f (a # as) =
     (case f a of
        None \<Rightarrow> None
      | Some v \<Rightarrow> (case read_all f as of None \<Rightarrow> None | Some vs \<Rightarrow> Some (v # vs)))"

definition read_question :: "store \<Rightarrow> nat \<Rightarrow> question option" where
  "read_question h a =
     (case lookup h a of
        Some (Question_obj c opts) \<Rightarrow>
          (case lookup h opts of
             Some (Arr os) \<Rightarrow>
               (case read_all (read_option h) os of
                  None \<Rightarrow> None
                | Some vs \<Rightarrow> Some \<lparr> color = c, options = vs \<rparr>)
           | _ \<Rightarrow> None)
      | _ \<Rightarrow> None)"

definition read_dataset :: "store \<Rightarrow> nat \<Rightarrow> question list option" where
  "read_dataset h a =
     (case lookup h a of
        Some (Arr qs) \<Rightarrow> read_all (read_question h) qs
      | _ \<Rightarrow> None)"

text \<open>The references a dataset is made of: the array of questions, the question
  objects and their arrays of options.\<close>

definition options_ref :: "store \<Rightarrow> nat \<Rightarrow> nat option" where
  "options_ref h q = (case lookup h q of Some (Question_obj c opts) \<Rightarrow> Some opts | _ \<Rightarrow> None)"

definition question_refs :: "store \<Rightarrow> nat \<Rightarrow> nat list" where
  "question_refs h a = (case lookup h a of Some (Arr qs) \<Rightarrow> qs | _ \<Rightarrow> [])"

text \<open>Evaluating the literal \<open>staticQuestions\<close>: the option objects and the array of
  each question, the question object, and at the end the array of questions.\<close>

fun alloc_all :: "obj list \<Rightarrow> store \<Rightarrow> nat list \<times> store" where
  "alloc_all [] h = ([], h)"
| "alloc_all (v # vs) h =
     (let (a, h1) = alloc v h; (as, h2) = alloc_all vs h1 in (a # as, h2))"

fun alloc_questions :: "question list \<Rightarrow> store \<Rightarrow> nat list \<times> store" where
  "alloc_questions [] h = ([], h)"
| "alloc_questions (q # qs) h =
     (let (os, h1) = alloc_all (map Option_obj (options q)) h;
          (opts, h2) = alloc (Arr os) h1;
          (a, h3) = alloc (Question_obj (color q) opts) h2;
          (as, h4) = alloc_questions qs h3
      in (a # as, h4))"

definition alloc_dataset :: "question list \<Rightarrow> store \<Rightarrow> nat \<times> store" where
  "alloc_dataset qs h = (let (as, h1) = alloc_questions qs h in alloc (Arr as) h1)"

definition staticQuestions :: "question list" where
  "staticQuestions =
     [ \<lparr> color = ''red'', options =
           [ \<lparr> label = ''Apple'', image_src = ''/images/apple.png'', isCorrect = True \<rparr>,
             \<lparr> label = ''Banana'', image_src = ''/images/banana.png'', isCorrect = False \<rparr>,
             \<lparr> label = ''Sky'', image_src = ''/images/sky.png'', isCorrect = False \<rparr> ] \<rparr>,
       \<lparr> color = ''blue'', options =
           [ \<lparr> label = ''Sky'', image_src = ''/images/sky.png'', isCorrect = True \<rparr>,
             \<lparr> label = ''Lemon'', image_src = ''/images/lemon.png'', isCorrect = False \<rparr>,
             \<lparr> label = ''Tomato'', image_src = ''/images/tomato.png'', isCorrect = False \<rparr> ] \<rparr>,
       \<lparr> color = ''green'', options =
           [ \<lparr> label = ''Leaf'', image_src = ''/images/leaf.png'', isCorrect = True \<rparr>,
             \<lparr> label = ''Sun'', image_src = ''/images/sun.png'', isCorrect = False \<rparr>,
             \<lparr> label = ''Strawberry'', image_src = ''/images/strawberry.png'', isCorrect = False \<rparr> ] \<rparr>,
       \<lparr> color = ''yellow'', options =
           [ \<lparr> label = ''Banana'', image_src = ''/images/banana.png'', isCorrect = True \<rparr>,
             \<lparr> label = ''Grapes'', image_src = ''/images/grapes.png'', isCorrect = False \<rparr>,
             \<lparr> label = ''Cherry'', image_src = ''/images/cherry.png'', isCorrect = False \<rparr> ] \<rparr>,
       \<lparr> color = ''orange'', options =
           [ \<lparr> label = ''Carrot'', image_src = ''/images/carrot.png'', isCorrect = True \<rparr>,
             \<lparr> label = ''Eggplant'', image_src = ''/images/eggplant.png'', isCorrect = False \<rparr>,
             \<lparr> label = ''Broccoli'', image_src = ''/images/broccoli.png'', isCorrect = False \<rparr> ] \<rparr> ]"

text \<open>Two questions with the same colour and the same options up to their order: what the
  callback of \<open>map\<close> makes of a question.\<close>

definition same_question :: "question \<Rightarrow> question \<Rightarrow> bool" where
  "same_question v v' = (color v' = color v \<and> mset (options v') = mset (options v))"

text \<open>The store after the module has evaluated the literal, and the reference of
  \<open>staticQuestions\<close> in it.\<close>

definition static_store :: store where
  "static_store = snd (alloc_dataset staticQuestions [])"

definition static_ref :: nat where
  "static_ref = fst (alloc_dataset staticQuestions [])"

section \<open>The example session of the specification\<close>

text \<open>Five questions answered correct, correct, wrong, correct, wrong, on the dataset
  in its written order (the correct option is the first of each question). Every
  click is followed by its two timeouts.\<close>

definition example_clock :: clock where
  "example_clock = \<lparr> now = 1700000000000, localeDate = ''11/14/2023'', localeTime = ''10:13:20 PM'' \<rparr>"

definition answer :: "nat \<Rightarrow> event list" where
  "answer i = [Click i, Timeout 0 example_clock, Timeout 0 example_clock]"

definition example_session :: "event list" where
  "example_session = answer 0 @ answer 0 @ answer 1 @ answer 0 @ answer 2"


text \<open>GameScreen as mounted on the dataset in its written order while nothing is
  stored, and a later reading of the clock.\<close>

definition mounted_game :: "game browser" where
  "mounted_game =
     \<lparr> screen = initial_game\<lparr> questions := staticQuestions \<rparr>, timeouts = [],
       localStorage = None \<rparr>"

definition later_clock :: clock where
  "later_clock = \<lparr> now = 1700000060000, localeDate = ''11/14/2023'', localeTime = ''10:14:20 PM'' \<rparr>"

section \<open>Play Again while a timeout is pending\<close>






section \<open>Invariants of a session\<close>

text \<open>
  The predicates below are used in the proofs only. A session is what follows a mount:
  clicks, timeouts and ticks. \<open>history_of\<close> is the list an append starts from when the
  stored text is \<open>st\<close>.
\<close>

definition history_of :: "persisted option \<Rightarrow> game_result list" where
  "history_of st =
     (if truthy_item st then (case JSON_parse (the st) of Inl e \<Rightarrow> [] | Inr h \<Rightarrow> h) else [])"

definition timer_render :: "'r timer \<Rightarrow> 'r" where
  "timer_render t = (case t of Feedback correct r \<Rightarrow> r | Transition correct r \<Rightarrow> r)"

definition timer_correct :: "'r timer \<Rightarrow> bool" where
  "timer_correct t = (case t of Feedback correct r \<Rightarrow> correct | Transition correct r \<Rightarrow> correct)"

text \<open>The final score the closure of a pending timeout computes.\<close>

definition timer_finalScore :: "'a quiz_scheme timer \<Rightarrow> nat" where
  "timer_finalScore t =
     (if timer_correct t then score (timer_render t) + 1 else score (timer_render t))"

text \<open>A pending timeout that will advance to the next question rather than save.\<close>

definition timer_advances :: "'a quiz_scheme timer \<Rightarrow> bool" where
  "timer_advances t =
     (currentIndex (timer_render t) + 1 < length (questions (timer_render t)))"

text \<open>The stored text holds, in front of the first \<open>cap - 1\<close> results of \<open>h0\<close>, a
  result with score \<open>n\<close> out of \<open>len\<close>.\<close>

definition stored_result :: "nat \<Rightarrow> nat \<Rightarrow> nat \<Rightarrow> game_result list \<Rightarrow> persisted option \<Rightarrow> bool" where
  "stored_result n len cap h0 st =
     (case st of
        Some (Serialized (res # rest)) \<Rightarrow>
          score_r res = n \<and> totalQuestions_r res = len
          \<and> percentage_r res = percentage n len \<and> rest = take (cap - 1) h0
      | _ \<Rightarrow> False)"

definition inv_enhanced ::
  "question list \<Rightarrow> persisted option \<Rightarrow> nat \<Rightarrow> enhanced browser \<Rightarrow> bool" where
  "inv_enhanced qs st0 n w =
     (let r = screen w in
      questions r = qs \<and> currentIndex r < length qs \<and> score r = n \<and>
      (case timeouts w of
         [] \<Rightarrow>
           (if selectedOption r = None
            then n \<le> currentIndex r \<and> localStorage w = st0
            else n \<le> currentIndex r + 1
                 \<and> (localStorage w = st0
                      \<or> stored_result n (length qs) 50 (history_of st0) (localStorage w)))
       | [t] \<Rightarrow>
           selectedOption r \<noteq> None \<and> n \<le> currentIndex r + 1 \<and> localStorage w = st0
           \<and> questions (timer_render t) = qs
           \<and> currentIndex (timer_render t) = currentIndex r
           \<and> timer_finalScore t = n
       | _ \<Rightarrow> False))"

definition inv_game ::
  "question list \<Rightarrow> persisted option \<Rightarrow> game_result list \<Rightarrow> nat \<Rightarrow> game browser \<Rightarrow> bool" where
  "inv_game qs st0 h0 n w =
     (let r = screen w in
      questions r = qs \<and> currentIndex r < length qs \<and> score r = n \<and>
      (case timeouts w of
         [] \<Rightarrow>
           (if selectedOption r = None
            then n \<le> currentIndex r \<and> localStorage w = st0 \<and> gameHistory r = h0
                 \<and> \<not> isFinished r
            else n \<le> currentIndex r + 1
                 \<and> stored_result n (length qs) 10 h0 (localStorage w))
       | [t] \<Rightarrow>
           selectedOption r \<noteq> None \<and> n \<le> currentIndex r + 1 \<and> localStorage w = st0
           \<and> gameHistory r = h0 \<and> \<not> isFinished r
           \<and> questions (timer_render t) = qs
           \<and> currentIndex (timer_render t) = currentIndex r
           \<and> gameHistory (timer_render t) = h0
           \<and> timer_finalScore t = n
       | _ \<Rightarrow> False))"

section \<open>The session invariant is kept by every event\<close>

lemma drop_nth_single [simp]: "drop_nth 0 [t] = []"
  by (simp add: drop_nth_def)

lemma timer_simps [simp]:
  "timer_render (Feedback correct r) = r"
  "timer_render (Transition correct r) = r"
  "timer_correct (Feedback correct r) = correct"
  "timer_correct (Transition correct r) = correct"
  "timer_finalScore (Feedback correct r) = (if correct then score r + 1 else score r)"
  "timer_finalScore (Transition correct r) = (if correct then score r + 1 else score r)"
  by (simp_all add: timer_render_def timer_correct_def timer_finalScore_def)










lemma inv_enhanced_mount:
  "qs \<noteq> [] \<Longrightarrow> inv_enhanced qs st 0 (mount_enhanced p qs c st)"
  by (simp add: inv_enhanced_def mount_enhanced_def initializeGameMode_def initial_enhanced_def)




section \<open>The same invariant for GameScreen\<close>









lemma inv_game_mount:
  "qs \<noteq> [] \<Longrightarrow> mount_game qs st = Inr w \<Longrightarrow> inv_game qs st (history_of st) 0 w"
  by (auto simp: inv_game_def mount_game_def load_history_game_def initial_game_def history_of_def
      split: sum.splits if_splits)




section \<open>Clicks on a disabled button; the countdown\<close>

lemma click_enhanced_selected:
  "selectedOption (screen w) \<noteq> None \<Longrightarrow> click_enhanced j w = w"
  by (auto simp: click_enhanced_def button_enabled_def)

lemma click_game_selected:
  "selectedOption (screen w) \<noteq> None \<Longrightarrow> click_game j w = w"
  by (auto simp: click_game_def button_enabled_def)

lemma tick_running:
  "countdown_running (screen w) \<Longrightarrow>
     timeLeft (screen (tick w)) = timeLeft (screen w) - 1
   \<and> (isFinished (screen (tick w)) \<longleftrightarrow> timeLeft (screen w) = 1)
   \<and> (countdown_running (screen (tick w)) \<longleftrightarrow> timeLeft (screen w) \<noteq> 1)
   \<and> score (screen (tick w)) = score (screen w)
   \<and> currentIndex (screen (tick w)) = currentIndex (screen w)"
  by (auto simp: tick_def countdown_running_def Let_def)

lemma run_enhanced_ticks_Suc:
  "run_enhanced w (replicate (Suc n) Tick) = run_enhanced (tick w) (replicate n Tick)"
  by simp

lemma countdown_expires:
  "countdown_running (screen w) \<Longrightarrow> timeLeft (screen w) = int n \<Longrightarrow>
     isFinished (screen (run_enhanced w (replicate n Tick)))
   \<and> timeLeft (screen (run_enhanced w (replicate n Tick))) = 0
   \<and> score (screen (run_enhanced w (replicate n Tick))) = score (screen w)
   \<and> currentIndex (screen (run_enhanced w (replicate n Tick))) = currentIndex (screen w)"
proof (induction n arbitrary: w)
  case 0
  then show ?case by (simp add: countdown_running_def)
next
  case (Suc n)
  show ?case
  proof (cases "n = 0")
    case True
    with Suc.prems tick_running[OF Suc.prems(1)] show ?thesis by simp
  next
    case False
    with Suc.prems tick_running[OF Suc.prems(1)]
    have "countdown_running (screen (tick w))" "timeLeft (screen (tick w)) = int n"
      by simp_all
    from Suc.IH[OF this] tick_running[OF Suc.prems(1)] show ?thesis
      by (simp del: replicate.simps add: run_enhanced_ticks_Suc)
  qed
qed

lemma countdown_not_early:
  "countdown_running (screen w) \<Longrightarrow> timeLeft (screen w) = int n \<Longrightarrow> k < n \<Longrightarrow>
     \<not> isFinished (screen (run_enhanced w (replicate k Tick)))
   \<and> timeLeft (screen (run_enhanced w (replicate k Tick))) = int n - int k"
proof (induction k arbitrary: w n)
  case 0
  then show ?case by (simp add: countdown_running_def)
next
  case (Suc k)
  from Suc.prems have n: "timeLeft (screen w) \<noteq> 1" by simp
  with Suc.prems tick_running[OF Suc.prems(1)]
  have "countdown_running (screen (tick w))" "timeLeft (screen (tick w)) = int (n - 1)" "k < n - 1"
    by simp_all
  from Suc.IH[OF this] Suc.prems show ?case
    by (simp del: replicate.simps add: run_enhanced_ticks_Suc)
qed

lemma mount_timed:
  "countdown_running (screen (mount_enhanced (Some ''timed'') qs c st))"
  "timeLeft (screen (mount_enhanced (Some ''timed'') qs c st)) = 60"
  "score (screen (mount_enhanced (Some ''timed'') qs c st)) = 0"
  by (simp_all add: mount_enhanced_def gameMode_of_def initializeGameMode_def initial_enhanced_def
      countdown_running_def truthy_nat_def)

lemma countdown_kept_by_step:
  assumes "truthy_nat (timeLimit (modeSettings (screen w)))" and "gameMode (screen w) \<noteq> ''speed''"
    and "isFinished (screen w) \<or> timeLeft (screen w) > 0"
  shows "truthy_nat (timeLimit (modeSettings (screen (step_enhanced e w))))
       \<and> gameMode (screen (step_enhanced e w)) \<noteq> ''speed''
       \<and> (isFinished (screen (step_enhanced e w)) \<or> timeLeft (screen (step_enhanced e w)) > 0)"
proof (cases e)
  case (Click i)
  with assms show ?thesis
    by (auto simp: click_enhanced_def handleSelect_enhanced_def Let_def)
next
  case (Timeout k c)
  with assms show ?thesis
    by (auto simp: timeout_enhanced_def advance_enhanced_def Let_def
        split: timer.splits sum.splits)
next
  case Tick
  with assms show ?thesis
    by (auto simp: tick_def countdown_running_def Let_def)
next
  case (SpeedTick c)
  with assms show ?thesis
    by (simp add: speed_tick_def)
qed

lemma countdown_kept_by_run:
  "truthy_nat (timeLimit (modeSettings (screen w))) \<Longrightarrow> gameMode (screen w) \<noteq> ''speed'' \<Longrightarrow>
   isFinished (screen w) \<or> timeLeft (screen w) > 0 \<Longrightarrow>
   \<not> isFinished (screen (run_enhanced w es)) \<Longrightarrow> countdown_running (screen (run_enhanced w es))"
proof (induction es arbitrary: w)
  case Nil
  then show ?case by (simp add: countdown_running_def)
next
  case (Cons e es)
  from countdown_kept_by_step[OF Cons.prems(1-3), of e] Cons.IH[of "step_enhanced e w"] Cons.prems(4)
  show ?case by simp
qed

lemma countdown_runs_until_finished:
  assumes "m = ''timed'' \<or> m = ''hard''"
    and "\<not> isFinished (screen (run_enhanced (mount_enhanced (Some m) qs c st) es))"
  shows "countdown_running (screen (run_enhanced (mount_enhanced (Some m) qs c st) es))"
proof -
  from assms(1) have
    "truthy_nat (timeLimit (modeSettings (screen (mount_enhanced (Some m) qs c st))))"
    "gameMode (screen (mount_enhanced (Some m) qs c st)) \<noteq> ''speed''"
    "timeLeft (screen (mount_enhanced (Some m) qs c st)) > 0"
    by (auto simp: mount_enhanced_def gameMode_of_def initializeGameMode_def initial_enhanced_def
        truthy_nat_def)
  from countdown_kept_by_run[OF this(1,2) _ assms(2)] this(3) show ?thesis by blast
qed

section \<open>After the end of a session; loading and appending\<close>

lemma list_all_drop_nth:
  "list_all P xs \<Longrightarrow> list_all P (drop_nth k xs)"
  by (auto simp: drop_nth_def list_all_iff dest: in_set_takeD in_set_dropD)

lemma timeout_enhanced_finished:
  assumes "isFinished (screen w)" and "list_all timer_advances (timeouts w)"
  shows "isFinished (screen (timeout_enhanced k c w))
       \<and> list_all timer_advances (timeouts (timeout_enhanced k c w))
       \<and> localStorage (timeout_enhanced k c w) = localStorage w"
proof (cases "k < length (timeouts w)")
  case False
  with assms show ?thesis by (simp add: timeout_enhanced_def)
next
  case True
  with assms(2) have adv: "timer_advances (timeouts w ! k)"
    by (simp add: list_all_length)
  from assms(2) have rest: "list_all timer_advances (drop_nth k (timeouts w))"
    by (rule list_all_drop_nth)
  show ?thesis
  proof (cases "timeouts w ! k")
    case (Feedback correct r)
    with True adv rest assms(1) show ?thesis
      by (simp add: timeout_enhanced_def timer_advances_def)
  next
    case (Transition correct r)
    with True adv rest assms(1) show ?thesis
      by (simp add: timeout_enhanced_def advance_enhanced_def timer_advances_def)
  qed
qed

lemma step_enhanced_finished:
  assumes "isFinished (screen w)" and "list_all timer_advances (timeouts w)"
  shows "isFinished (screen (step_enhanced e w))
       \<and> list_all timer_advances (timeouts (step_enhanced e w))
       \<and> localStorage (step_enhanced e w) = localStorage w"
proof (cases e)
  case (Click i)
  with assms show ?thesis
    by (simp add: click_enhanced_def button_enabled_def shows_question_def)
next
  case (Timeout k c)
  with timeout_enhanced_finished[OF assms] show ?thesis by simp
next
  case Tick
  with assms show ?thesis by (simp add: tick_def countdown_running_def)
next
  case (SpeedTick c)
  with assms show ?thesis by (simp add: speed_tick_def)
qed

lemma run_enhanced_finished:
  "isFinished (screen w) \<Longrightarrow> list_all timer_advances (timeouts w) \<Longrightarrow>
   localStorage (run_enhanced w es) = localStorage w"
proof (induction es arbitrary: w)
  case Nil
  then show ?case by simp
next
  case (Cons e es)
  from step_enhanced_finished[OF Cons.prems, of e] Cons.IH[of "step_enhanced e w"]
  show ?case by simp
qed

lemma tick_frame:
  "localStorage (tick w) = localStorage w \<and> timeouts (tick w) = timeouts w"
  by (simp add: tick_def Let_def)

lemma take_append_take: "take n (xs @ take n ys) = take n (xs @ ys)"
  by (simp add: min_def)

lemma gameResult_game_questions:
  "questions r' = questions r \<Longrightarrow> gameResult_game r' fs c = gameResult_game r fs c"
  by (simp add: gameResult_game_def)

lemma saves_game_history:
  "gameHistory (screen (saves_game w xs))
     = (if xs = [] then gameHistory (screen w)
        else take 10 (rev (map (\<lambda>(fs, c). gameResult_game (screen w) fs c) xs) @ gameHistory (screen w)))
   \<and> questions (screen (saves_game w xs)) = questions (screen w)"
proof (induction xs arbitrary: w)
  case Nil
  then show ?case by simp
next
  case (Cons x xs)
  obtain fs c where x: "x = (fs, c)" by (cases x)
  let ?w1 = "saveGameResult_game (screen w) fs c w"
  have q: "questions (screen ?w1) = questions (screen w)"
    and h: "gameHistory (screen ?w1) = take 10 (gameResult_game (screen w) fs c # gameHistory (screen w))"
    by (simp_all add: saveGameResult_game_def Let_def)
  have m: "map (\<lambda>(fs, c). gameResult_game (screen ?w1) fs c) xs
         = map (\<lambda>(fs, c). gameResult_game (screen w) fs c) xs"
    using gameResult_game_questions[OF q] by auto
  from Cons.IH[of ?w1] show ?case
    unfolding x by (simp add: q h m take_append_take del: take_Cons_numeral)
qed

lemma saves_game_store:
  "localStorage (saves_game w (x # xs)) = Some (Serialized (gameHistory (screen (saves_game w (x # xs)))))"
proof (induction xs arbitrary: w x)
  case Nil
  then show ?case by (cases x) (simp add: saveGameResult_game_def JSON_stringify_def Let_def)
next
  case (Cons y ys)
  obtain fs c where x: "x = (fs, c)" by (cases x)
  from Cons[of "saveGameResult_game (screen w) fs c w" y] show ?case
    unfolding x by simp
qed

lemma saveGameResult_enhanced_Serialized:
  "saveGameResult_enhanced r fs c (Some (Serialized h))
     = Inr (Some (Serialized (take 50 (gameResult_enhanced r fs c # h))))"
  "saveGameResult_enhanced r fs c None
     = Inr (Some (Serialized (take 50 [gameResult_enhanced r fs c])))"
  "saveGameResult_enhanced r fs c (Some EmptyText)
     = Inr (Some (Serialized (take 50 [gameResult_enhanced r fs c])))"
  "saveGameResult_enhanced r fs c (Some Malformed) = Inl SyntaxError"
  by (simp_all add: saveGameResult_enhanced_def truthy_item_def JSON_parse_def JSON_stringify_def)

lemma saves_enhanced_Serialized:
  "saves_enhanced r (Some (Serialized h)) xs
     = Inr (Some (Serialized (if xs = [] then h
             else take 50 (rev (map (\<lambda>(fs, c). gameResult_enhanced r fs c) xs) @ h))))"
proof (induction xs arbitrary: h)
  case Nil
  then show ?case by simp
next
  case (Cons x xs)
  obtain fs c where x: "x = (fs, c)" by (cases x)
  show ?case
    unfolding x
    by (simp add: saveGameResult_enhanced_Serialized Cons.IH take_append_take
         del: take_Cons_numeral)
qed

section \<open>The example session, evaluated\<close>

lemma percentage_examples [simp]:
  "percentage 3 5 = Some 60"
  "percentage 2 5 = Some 40"
  "percentage 1 3 = Some 33"
  "percentage 2 3 = Some 67"
  "percentage 23 40 = Some 57"
  "percentage 1 8 = Some 13"
  "percentage (Suc (Suc (Suc 0))) (Suc (Suc (Suc (Suc (Suc 0))))) = Some 60"
  by code_simp+

lemmas example_unfold =
  example_session_def answer_def mount_enhanced_def gameMode_of_def initializeGameMode_def
  initial_enhanced_def staticQuestions_def click_enhanced_def button_enabled_def
  shows_question_def handleSelect_enhanced_def timeout_enhanced_def advance_enhanced_def
  saveGameResult_enhanced_def gameResult_enhanced_def truthy_item_def truthy_int_def
  JSON_stringify_def example_clock_def Let_def correct_select_def
  mounted_game_def initial_game_def click_game_def handleSelect_game_def timeout_game_def
  advance_game_def saveGameResult_game_def gameResult_game_def



lemma example_enhanced_count:
  "correct_selects_enhanced (mount_enhanced None staticQuestions example_clock None) example_session = 3"
  by (simp add: example_unfold)

lemma mount_game_example: "mount_game staticQuestions None = Inr mounted_game"
  by (simp add: mount_game_def load_history_game_def truthy_item_def mounted_game_def)



lemma example_game_count:
  "correct_selects_game mounted_game example_session = 3"
  by (simp add: example_unfold)



lemma run_ticks_frame:
  "timeouts (run_enhanced w (replicate n Tick)) = timeouts w"
  "localStorage (run_enhanced w (replicate n Tick)) = localStorage w"
  by (induction n arbitrary: w) (simp_all add: tick_frame)

section \<open>Fresh starts; a game played to the last question\<close>





















section \<open>Shuffling on the store\<close>

lemma rand_index_bound:
  "0 \<le> u \<Longrightarrow> u < 1 \<Longrightarrow> nat \<lfloor>u * real (Suc m)\<rfloor> < Suc m"
proof -
  assume u: "0 \<le> u" "u < 1"
  then have "u * real (Suc m) < real (Suc m)" by simp
  then have "\<lfloor>u * real (Suc m)\<rfloor> < int (Suc m)" by (simp add: floor_less_iff)
  then show ?thesis by linarith
qed

lemma lookup_append: "lookup h a = Some v \<Longrightarrow> lookup (h @ ext) a = Some v"
  by (auto simp: lookup_def nth_append split: if_splits)

lemma lookup_fresh [simp]: "lookup (h @ v # ext) (length h) = Some v"
  by (simp add: lookup_def)

lemma lookup_update [simp]: "b < length h \<Longrightarrow> lookup (h[b := v]) b = Some v"
  by (simp add: lookup_def)

lemma lookup_Some_less: "lookup h a = Some v \<Longrightarrow> a < length h \<and> h ! a = v"
  by (auto simp: lookup_def split: if_splits)

lemma shuffle_loop_spec:
  assumes "lookup h b = Some (Arr xs)" and "i < length xs \<or> i = 0"
    and "\<forall>k. 0 \<le> rnd k \<and> rnd k < 1"
  shows "\<exists>ys. shuffle_loop rnd i n b h = (n + i, h[b := Arr ys]) \<and> mset ys = mset xs"
  using assms(1,2)
proof (induction i arbitrary: n h xs)
  case 0
  from lookup_Some_less[OF 0(1)] have "h[b := Arr xs] = h" by (simp add: list_update_same_conv)
  then show ?case by (intro exI[of _ xs]) simp
next
  case (Suc i)
  let ?j = "nat \<lfloor>rnd n * real (Suc i + 1)\<rfloor>"
  from Suc.prems have i: "Suc i < length xs" by simp
  from assms(3) rand_index_bound[of "rnd n" "Suc i"] have j: "?j < Suc (Suc i)" by simp
  with i have jl: "?j < length xs" by simp
  let ?xs' = "xs[Suc i := xs ! ?j, ?j := xs ! Suc i]"
  from lookup_Some_less[OF Suc.prems(1)] have b: "b < length h" by simp
  have sw: "swap_at b (Suc i) ?j h = h[b := Arr ?xs']"
    using Suc.prems(1) by (simp add: swap_at_def)
  have m: "mset ?xs' = mset xs" using i jl by (simp add: mset_swap)
  have l: "lookup (h[b := Arr ?xs']) b = Some (Arr ?xs')" using b by simp
  from i have "i < length ?xs' \<or> i = 0" by simp
  from Suc.IH[OF l this, of "Suc n"] obtain ys where
    ys: "shuffle_loop rnd i (Suc n) b (h[b := Arr ?xs']) = (Suc n + i, h[b := Arr ?xs', b := Arr ys])"
      "mset ys = mset ?xs'" by auto
  have "shuffle_loop rnd (Suc i) n b h = shuffle_loop rnd i (Suc n) b (swap_at b (Suc i) ?j h)"
    by (simp only: shuffle_loop.simps Let_def)
  also have "\<dots> = (n + Suc i, h[b := Arr ys])"
    by (simp only: sw ys) simp
  finally show ?case
    using ys(2) m by (intro exI[of _ ys]) simp
qed

lemma shuffleArray_spec:
  assumes "lookup h a = Some (Arr xs)" and "\<forall>k. 0 \<le> rnd k \<and> rnd k < 1"
  shows "\<exists>ys. shuffleArray rnd n a h = Some (length h, n + (length xs - 1), h @ [Arr ys])
              \<and> mset ys = mset xs"
proof -
  have "length xs - 1 < length xs \<or> length xs - 1 = 0" by (cases xs) simp_all
  from shuffle_loop_spec[OF _ this assms(2), of "h @ [Arr xs]" "length h" n]
  obtain ys where ys: "shuffle_loop rnd (length xs - 1) n (length h) (h @ [Arr xs])
      = (n + (length xs - 1), (h @ [Arr xs])[length h := Arr ys])" "mset ys = mset xs"
    by auto
  show ?thesis
    using assms(1) ys by (intro exI[of _ ys]) (simp add: shuffleArray_def alloc_def)
qed


lemma read_all_eq:
  "read_all f as = (if \<forall>a\<in>set as. f a \<noteq> None then Some (map (\<lambda>a. the (f a)) as) else None)"
  by (induction as) (auto split: option.splits)

lemma read_all_Some_iff:
  "read_all f as = Some vs \<longleftrightarrow> (\<forall>a\<in>set as. f a \<noteq> None) \<and> vs = map (\<lambda>a. the (f a)) as"
  by (auto simp: read_all_eq)

lemma read_all_mono:
  assumes "read_all f as = Some vs" and "\<And>a v. a \<in> set as \<Longrightarrow> f a = Some v \<Longrightarrow> g a = Some v"
  shows "read_all g as = Some vs"
  using assms by (fastforce simp: read_all_Some_iff)

lemma read_all_mset:
  assumes "read_all f xs = Some vs" and "mset ys = mset xs"
  shows "\<exists>ws. read_all f ys = Some ws \<and> mset ws = mset vs"
proof -
  from assms(2) have s: "set ys = set xs" by (rule mset_eq_setD)
  from assms(1) have a: "\<forall>a\<in>set xs. f a \<noteq> None" and v: "vs = map (\<lambda>a. the (f a)) xs"
    by (simp_all add: read_all_Some_iff)
  have "read_all f ys = Some (map (\<lambda>a. the (f a)) ys)"
    using a s by (simp add: read_all_Some_iff)
  moreover have "mset (map (\<lambda>a. the (f a)) ys) = mset vs"
    using assms(2) v by simp
  ultimately show ?thesis by blast
qed

lemma read_option_append:
  assumes "read_option h a = Some v"
  shows "read_option (h @ ext) a = Some v"
proof -
  from assms have "lookup h a = Some (Option_obj v)"
    by (auto simp: read_option_def split: option.splits obj.splits)
  from lookup_append[OF this] show ?thesis by (simp add: read_option_def)
qed

lemma read_questionD:
  assumes "read_question h q = Some v"
  shows "\<exists>opts os. lookup h q = Some (Question_obj (color v) opts) \<and> lookup h opts = Some (Arr os)
           \<and> read_all (read_option h) os = Some (options v)"
  using assms by (auto simp: read_question_def split: option.splits obj.splits)

lemma read_questionI:
  assumes "lookup h q = Some (Question_obj c opts)" and "lookup h opts = Some (Arr os)"
    and "read_all (read_option h) os = Some vs"
  shows "read_question h q = Some \<lparr> color = c, options = vs \<rparr>"
  using assms by (simp add: read_question_def)

lemma read_question_append:
  assumes "read_question h q = Some v"
  shows "read_question (h @ ext) q = Some v"
proof -
  from read_questionD[OF assms] obtain opts os where
    a: "lookup h q = Some (Question_obj (color v) opts)" "lookup h opts = Some (Arr os)"
       "read_all (read_option h) os = Some (options v)" by blast
  have "read_all (read_option (h @ ext)) os = Some (options v)"
    by (rule read_all_mono[OF a(3)]) (rule read_option_append)
  from read_questionI[OF lookup_append[OF a(1)] lookup_append[OF a(2)] this]
  show ?thesis by simp
qed

lemma read_all_question_append:
  "read_all (read_question h) qs = Some vs \<Longrightarrow> read_all (read_question (h @ ext)) qs = Some vs"
  by (erule read_all_mono) (rule read_question_append)

lemma read_dataset_append:
  assumes "read_dataset h a = Some vs"
  shows "read_dataset (h @ ext) a = Some vs"
proof -
  from assms obtain qs where a: "lookup h a = Some (Arr qs)" "read_all (read_question h) qs = Some vs"
    by (auto simp: read_dataset_def split: option.splits obj.splits)
  from lookup_append[OF a(1)] read_all_question_append[OF a(2)] show ?thesis
    by (simp add: read_dataset_def)
qed

lemma map_questions_spec:
  assumes "read_all (read_question h) qs = Some vs" and "\<forall>k. 0 \<le> rnd k \<and> rnd k < 1"
  shows "\<exists>qs' n' ext vs'. map_questions rnd n qs h = Some (qs', n', h @ ext)
           \<and> read_all (read_question (h @ ext)) qs' = Some vs'
           \<and> list_all2 same_question vs vs'
           \<and> (\<forall>q'\<in>set qs'. length h \<le> q'
                 \<and> (\<exists>opts. options_ref (h @ ext) q' = Some opts \<and> length h \<le> opts))"
  using assms(1)
proof (induction qs arbitrary: n h vs)
  case Nil
  then show ?case by (intro exI[of _ "[]"]) simp
next
  case (Cons q qs)
  from Cons.prems obtain v vt where v: "read_question h q = Some v"
    and vt: "read_all (read_question h) qs = Some vt" and vs: "vs = v # vt"
    by (auto split: option.splits)
  from read_questionD[OF v] obtain opts os where
    q: "lookup h q = Some (Question_obj (color v) opts)" and o: "lookup h opts = Some (Arr os)"
    and ro: "read_all (read_option h) os = Some (options v)" by blast
  from shuffleArray_spec[OF o assms(2), of n] obtain ys where
    sh: "shuffleArray rnd n opts h = Some (length h, n + (length os - 1), h @ [Arr ys])"
    and ys: "mset ys = mset os" by blast
  let ?h2 = "h @ [Arr ys, Question_obj (color v) (length h)]"
  have h2: "(h @ [Arr ys]) @ [Question_obj (color v) (length h)] = ?h2" by simp
  have "read_all (read_question ?h2) qs = Some vt"
    by (rule read_all_question_append[OF vt])
  from Cons.IH[OF this, of "n + (length os - 1)"] obtain qs' n' ext vt' where
    ih: "map_questions rnd (n + (length os - 1)) qs ?h2 = Some (qs', n', ?h2 @ ext)"
        "read_all (read_question (?h2 @ ext)) qs' = Some vt'"
        "list_all2 same_question vt vt'"
        "\<forall>q'\<in>set qs'. length ?h2 \<le> q'
            \<and> (\<exists>opts. options_ref (?h2 @ ext) q' = Some opts \<and> length ?h2 \<le> opts)"
    by blast
  let ?ext = "[Arr ys, Question_obj (color v) (length h)] @ ext"
  have e: "?h2 @ ext = h @ ?ext" by simp
  have run: "map_questions rnd n (q # qs) h = Some (Suc (length h) # qs', n', h @ ?ext)"
    using q sh ih(1) by (simp add: alloc_def)
  from read_all_mset[OF ro ys] obtain ws where
    ws: "read_all (read_option h) ys = Some ws" "mset ws = mset (options v)" by blast
  have rws: "read_all (read_option (h @ ?ext)) ys = Some ws"
    by (rule read_all_mono[OF ws(1)]) (rule read_option_append)
  have lq: "lookup (h @ ?ext) (Suc (length h)) = Some (Question_obj (color v) (length h))"
    by (simp add: lookup_def nth_append)
  have lo: "lookup (h @ ?ext) (length h) = Some (Arr ys)"
    by (simp add: lookup_def nth_append)
  from read_questionI[OF lq lo rws]
  have hd: "read_question (h @ ?ext) (Suc (length h)) = Some \<lparr> color = color v, options = ws \<rparr>" .
  have rd: "read_all (read_question (h @ ?ext)) (Suc (length h) # qs')
      = Some (\<lparr> color = color v, options = ws \<rparr> # vt')"
    using hd ih(2) by (simp add: e)
  have rel: "list_all2 same_question vs (\<lparr> color = color v, options = ws \<rparr> # vt')"
    using ih(3) ws(2) by (simp add: vs same_question_def)
  have fresh: "\<forall>q'\<in>set (Suc (length h) # qs'). length h \<le> q'
      \<and> (\<exists>opts. options_ref (h @ ?ext) q' = Some opts \<and> length h \<le> opts)"
  proof
    fix q' assume "q' \<in> set (Suc (length h) # qs')"
    then consider "q' = Suc (length h)" | "q' \<in> set qs'" by auto
    then show "length h \<le> q' \<and> (\<exists>opts. options_ref (h @ ?ext) q' = Some opts \<and> length h \<le> opts)"
    proof cases
      case 1
      with lq show ?thesis by (simp add: options_ref_def)
    next
      case 2
      with ih(4) have "length ?h2 \<le> q'"
        and "\<exists>opts. options_ref (?h2 @ ext) q' = Some opts \<and> length ?h2 \<le> opts" by blast+
      then show ?thesis unfolding e by auto
    qed
  qed
  from run rd rel fresh show ?case by blast
qed


lemma options_ref_append:
  assumes "options_ref h q = Some opts"
  shows "options_ref (h @ ext) q = Some opts"
proof -
  from assms obtain c where "lookup h q = Some (Question_obj c opts)"
    by (auto simp: options_ref_def split: option.splits obj.splits)
  from lookup_append[OF this] show ?thesis by (simp add: options_ref_def)
qed

lemma same_question_signature:
  "list_all2 same_question vs vs' \<Longrightarrow>
   map (\<lambda>q. (color q, mset (options q))) vs' = map (\<lambda>q. (color q, mset (options q))) vs"
  by (induction rule: list_all2_induct) (simp_all add: same_question_def)

lemma getShuffledQuestions_spec:
  assumes "read_dataset h a = Some vs" and "\<forall>k. 0 \<le> rnd k \<and> rnd k < 1"
  shows "\<exists>result n' ext vs' qs'.
           getShuffledQuestions rnd n a h = Some (result, n', h @ ext)
         \<and> read_dataset (h @ ext) result = Some vs'
         \<and> mset (map (\<lambda>q. (color q, mset (options q))) vs')
             = mset (map (\<lambda>q. (color q, mset (options q))) vs)
         \<and> length h \<le> result
         \<and> question_refs (h @ ext) result = qs'
         \<and> (\<forall>q\<in>set qs'. length h \<le> q
               \<and> (\<exists>opts. options_ref (h @ ext) q = Some opts \<and> length h \<le> opts))"
proof -
  from assms(1) obtain qs where a: "lookup h a = Some (Arr qs)"
    and r: "read_all (read_question h) qs = Some vs"
    by (auto simp: read_dataset_def split: option.splits obj.splits)
  from shuffleArray_spec[OF a assms(2), of n] obtain ys where
    sh: "shuffleArray rnd n a h = Some (length h, n + (length qs - 1), h @ [Arr ys])"
    and ys: "mset ys = mset qs" by blast
  let ?h1 = "h @ [Arr ys]"
  from read_all_mset[OF r ys] obtain ws where
    ws: "read_all (read_question h) ys = Some ws" "mset ws = mset vs" by blast
  have "read_all (read_question ?h1) ys = Some ws"
    by (rule read_all_question_append[OF ws(1)])
  from map_questions_spec[OF this assms(2), of "n + (length qs - 1)"]
  obtain qs' n' ext vs' where
    m: "map_questions rnd (n + (length qs - 1)) ys ?h1 = Some (qs', n', ?h1 @ ext)"
       "read_all (read_question (?h1 @ ext)) qs' = Some vs'"
       "list_all2 same_question ws vs'"
       "\<forall>q'\<in>set qs'. length ?h1 \<le> q'
          \<and> (\<exists>opts. options_ref (?h1 @ ext) q' = Some opts \<and> length ?h1 \<le> opts)"
    by blast
  let ?ext = "[Arr ys] @ ext @ [Arr qs']"
  let ?result = "length (?h1 @ ext)"
  have e: "(?h1 @ ext) @ [Arr qs'] = h @ ?ext" by simp
  have l1: "lookup ?h1 (length h) = Some (Arr ys)" by (simp add: lookup_def)
  have run: "getShuffledQuestions rnd n a h = Some (?result, n', h @ ?ext)"
    using sh l1 m(1) by (simp add: getShuffledQuestions_def alloc_def)
  have lr: "lookup (h @ ?ext) ?result = Some (Arr qs')"
    using lookup_fresh[of "?h1 @ ext" "Arr qs'" "[]"] by simp
  have "read_all (read_question ((?h1 @ ext) @ [Arr qs'])) qs' = Some vs'"
    by (rule read_all_question_append[OF m(2)])
  then have rd: "read_dataset (h @ ?ext) ?result = Some vs'"
    using lr by (simp add: read_dataset_def)
  have sig: "mset (map (\<lambda>q. (color q, mset (options q))) vs')
      = mset (map (\<lambda>q. (color q, mset (options q))) vs)"
    using same_question_signature[OF m(3)] ws(2)
    by (metis mset_map)
  have refs: "question_refs (h @ ?ext) ?result = qs'"
    using lr by (simp add: question_refs_def)
  have fresh: "\<forall>q\<in>set qs'. length h \<le> q
      \<and> (\<exists>opts. options_ref (h @ ?ext) q = Some opts \<and> length h \<le> opts)"
  proof
    fix q assume "q \<in> set qs'"
    with m(4) obtain opts where q: "length ?h1 \<le> q"
      "options_ref (?h1 @ ext) q = Some opts" "length ?h1 \<le> opts" by blast
    from options_ref_append[OF q(2), of "[Arr qs']"] have "options_ref (h @ ?ext) q = Some opts"
      by simp
    with q show "length h \<le> q \<and> (\<exists>opts. options_ref (h @ ?ext) q = Some opts \<and> length h \<le> opts)"
      by auto
  qed
  have "length h \<le> ?result" by simp
  with run rd sig refs fresh show ?thesis by blast
qed

lemma static_dataset: "read_dataset static_store static_ref = Some staticQuestions"
  by (simp add: static_store_def static_ref_def alloc_dataset_def alloc_def staticQuestions_def
      read_dataset_def read_question_def read_option_def lookup_def)

section \<open>Appends of EnhancedGameScreen read the store\<close>

lemma enhanced_appends_keep_both:
  "saveGameResult_enhanced r fs c st = Inr st' \<Longrightarrow>
   saveGameResult_enhanced r' fs' c' st'
     = Inr (Some (Serialized (take 50 (gameResult_enhanced r' fs' c'
         # take 50 (gameResult_enhanced r fs c # history_of st)))))"
  by (auto simp: saveGameResult_enhanced_def history_of_def truthy_item_def JSON_parse_def
      JSON_stringify_def split: sum.splits if_splits option.splits persisted.splits)

section \<open>The claims\<close>

subsection \<open>C1: the persisted score\<close>




subsection \<open>C2: a second selection\<close>

text \<open>
  C2. While an option is selected (\<open>selectedOption\<close> is not \<open>null\<close>), a click on any
  option button changes nothing: not the score, not the selected option, not any other
  part of the state, the pending timeouts or the store. In particular a second click
  right after an accepted one is without effect. The guard is the attribute
  \<open>disabled\<close> of the buttons; this holds for both screens.
\<close>

theorem second_select_rejected:
  "(selectedOption (screen w) \<noteq> None \<longrightarrow> click_enhanced j w = w)
   \<and> (selectedOption (screen v) \<noteq> None \<longrightarrow> click_game j v = v)
   \<and> (button_enabled (screen w) i \<longrightarrow> click_enhanced j (click_enhanced i w) = click_enhanced i w)
   \<and> (button_enabled (screen v) i \<longrightarrow> click_game j (click_game i v) = click_game i v)"
proof -
  have a: "button_enabled (screen w) i \<Longrightarrow> selectedOption (screen (click_enhanced i w)) \<noteq> None"
    by (simp add: click_enhanced_def handleSelect_enhanced_def Let_def)
  have b: "button_enabled (screen v) i \<Longrightarrow> selectedOption (screen (click_game i v)) \<noteq> None"
    by (simp add: click_game_def handleSelect_game_def Let_def)
  show ?thesis
    using a b click_enhanced_selected click_game_selected by blast
qed

theorem second_select_rejected_witness:
  "button_enabled (screen (mount_enhanced None staticQuestions example_clock None)) 0
   \<and> selectedOption (screen (click_enhanced 0 (mount_enhanced None staticQuestions example_clock None))) \<noteq> None
   \<and> click_enhanced 1 (click_enhanced 0 (mount_enhanced None staticQuestions example_clock None))
       = click_enhanced 0 (mount_enhanced None staticQuestions example_clock None)
   \<and> score (screen (click_enhanced 1 (click_enhanced 0 (mount_enhanced None staticQuestions example_clock None)))) = 1
   \<and> button_enabled (screen mounted_game) 0
   \<and> selectedOption (screen (click_game 0 mounted_game)) \<noteq> None
   \<and> click_game 1 (click_game 0 mounted_game) = click_game 0 mounted_game"
proof -
  have e: "button_enabled (screen (mount_enhanced None staticQuestions example_clock None)) 0"
    by (simp add: example_unfold)
  have g: "button_enabled (screen mounted_game) 0"
    by (simp add: example_unfold)
  have s: "selectedOption (screen (click_enhanced 0 (mount_enhanced None staticQuestions example_clock None))) \<noteq> None"
    "score (screen (click_enhanced 0 (mount_enhanced None staticQuestions example_clock None))) = 1"
    "selectedOption (screen (click_game 0 mounted_game)) \<noteq> None"
    by (simp_all add: example_unfold)
  from second_select_rejected[of "click_enhanced 0 (mount_enhanced None staticQuestions example_clock None)" 1
      "click_game 0 mounted_game" 0]
    second_select_rejected[of "mount_enhanced None staticQuestions example_clock None" 1 mounted_game 0]
  show ?thesis
    using e g s by simp
qed

subsection \<open>C3: loading the history\<close>

text \<open>
  C3, as amended. The load effects of StatisticsPage and of GameScreen yield the
  empty list when the key is absent or the stored text is empty, and the parsed list
  when the stored text parses to an array of result objects. On a non-empty text that
  \<open>JSON.parse\<close> rejects they do not yield the empty list: the \<open>SyntaxError\<close> of
  \<open>JSON.parse\<close> leaves the effect. Nothing is said of a text that parses to some
  other value.
\<close>

theorem load_history_cases:
  "load_history_statistics None = Inr []
   \<and> load_history_statistics (Some EmptyText) = Inr []
   \<and> load_history_statistics (Some (Serialized h)) = Inr h
   \<and> load_history_statistics (Some Malformed) = Inl SyntaxError
   \<and> load_history_game None r = Inr r
   \<and> load_history_game (Some EmptyText) r = Inr r
   \<and> load_history_game (Some (Serialized h)) r = Inr (r\<lparr> gameHistory := h \<rparr>)
   \<and> load_history_game (Some Malformed) r = Inl SyntaxError
   \<and> gameHistory initial_game = []"
  by (simp add: load_history_statistics_def load_history_game_def truthy_item_def JSON_parse_def
      initial_game_def)

text \<open>The claim as stated fails on a stored text that is not JSON: the load does not
  return the empty list, and mounting GameScreen ends with the exception.\<close>

theorem load_history_malformed_raises:
  "load_history_statistics (Some Malformed) \<noteq> Inr []
   \<and> load_history_statistics (Some Malformed) = Inl SyntaxError
   \<and> mount_game staticQuestions (Some Malformed) = Inl SyntaxError"
  by (simp add: load_history_statistics_def load_history_game_def truthy_item_def JSON_parse_def
      mount_game_def)

subsection \<open>C4: appending\<close>

text \<open>
  C4. An append puts the new result in front of the history it starts from and cuts
  the list to the capacity: 10 in GameScreen (which starts from the \<open>gameHistory\<close> of
  its render and writes both the state and the store), 50 in EnhancedGameScreen (which
  starts from the parsed stored text, or the empty list when nothing is stored). After
  a sequence of appends the store holds the results in reverse order of their
  appending, in front of the starting history, cut to the capacity; after eleven
  appends with capacity 10 it holds exactly the last ten, newest first.
\<close>

theorem append_prepends_and_truncates:
  "localStorage (saveGameResult_game r fs c w)
     = Some (Serialized (take 10 (gameResult_game r fs c # gameHistory r)))
   \<and> gameHistory (screen (saveGameResult_game r fs c w))
     = take 10 (gameResult_game r fs c # gameHistory r)
   \<and> saveGameResult_enhanced e fs c (Some (Serialized h))
     = Inr (Some (Serialized (take 50 (gameResult_enhanced e fs c # h))))
   \<and> saveGameResult_enhanced e fs c None
     = Inr (Some (Serialized [gameResult_enhanced e fs c]))
   \<and> localStorage (saves_game w (x # xs))
     = Some (Serialized (take 10
         (rev (map (\<lambda>(fs, c). gameResult_game (screen w) fs c) (x # xs))
          @ gameHistory (screen w))))
   \<and> saves_enhanced e (Some (Serialized h)) (x # xs)
     = Inr (Some (Serialized (take 50
         (rev (map (\<lambda>(fs, c). gameResult_enhanced e fs c) (x # xs)) @ h))))
   \<and> localStorage (saves_game w [x1, x2, x3, x4, x5, x6, x7, x8, x9, x10, x11])
     = Some (Serialized (map (\<lambda>(fs, c). gameResult_game (screen w) fs c)
         [x11, x10, x9, x8, x7, x6, x5, x4, x3, x2]))"
proof -
  have one: "localStorage (saveGameResult_game r fs c w)
       = Some (Serialized (take 10 (gameResult_game r fs c # gameHistory r)))"
    "gameHistory (screen (saveGameResult_game r fs c w))
       = take 10 (gameResult_game r fs c # gameHistory r)"
    by (simp_all add: saveGameResult_game_def JSON_stringify_def Let_def)
  have many: "localStorage (saves_game w (y # ys))
       = Some (Serialized (take 10
           (rev (map (\<lambda>(fs, c). gameResult_game (screen w) fs c) (y # ys))
            @ gameHistory (screen w))))" for y ys
    using saves_game_history[of w "y # ys"] saves_game_store[of w y ys] by simp
  have eleven: "localStorage (saves_game w [x1, x2, x3, x4, x5, x6, x7, x8, x9, x10, x11])
       = Some (Serialized (map (\<lambda>(fs, c). gameResult_game (screen w) fs c)
           [x11, x10, x9, x8, x7, x6, x5, x4, x3, x2]))"
    unfolding many by simp
  have enh: "saves_enhanced e (Some (Serialized h)) (x # xs)
       = Inr (Some (Serialized (take 50
           (rev (map (\<lambda>(fs, c). gameResult_enhanced e fs c) (x # xs)) @ h))))"
    using saves_enhanced_Serialized[of e h "x # xs"] by simp
  show ?thesis
    using one many[of x xs] eleven enh saveGameResult_enhanced_Serialized(1,2)[of e fs c]
    by simp
qed

subsection \<open>C5: appends and the stored value\<close>

text \<open>
  C5. \<open>saveGameResult\<close> of GameScreen does not read the store: it merges the new
  result into the \<open>gameHistory\<close> of its render. Two GameScreens are mounted while
  nothing is stored. The first appends a result; then the second appends its own on
  the store the first has written. The store ends up with the second result alone.
\<close>

theorem game_append_overwrites_stored_result:
  "mount_game staticQuestions None = Inr mounted_game
   \<and> localStorage (saveGameResult_game (screen mounted_game) 3 example_clock mounted_game)
       = Some (Serialized [gameResult_game (screen mounted_game) 3 example_clock])
   \<and> localStorage (saveGameResult_game (screen mounted_game) 4 later_clock
         (mounted_game\<lparr> localStorage :=
             Some (Serialized [gameResult_game (screen mounted_game) 3 example_clock]) \<rparr>))
       = Some (Serialized [gameResult_game (screen mounted_game) 4 later_clock])
   \<and> gameResult_game (screen mounted_game) 3 example_clock
       \<noteq> gameResult_game (screen mounted_game) 4 later_clock"
  by (simp add: mount_game_example saveGameResult_game_def JSON_stringify_def Let_def
      mounted_game_def initial_game_def gameResult_game_def)

subsection \<open>C6: shuffling\<close>

text \<open>
  C6. On a store in which the dataset at reference \<open>a\<close> can be read, and with every
  value of \<open>Math.random()\<close> in the interval from 0 (included) to 1 (excluded),
  \<open>getShuffledQuestions\<close> returns a reference to a dataset whose questions are those
  of the source up to their order, each with its colour and with the same options up
  to their order. Every array and object that existed before the call is unchanged, so
  the source dataset reads as before; the returned array, its question objects and
  their arrays of options are all new.
\<close>

theorem getShuffledQuestions_permutes_and_copies:
  assumes "read_dataset h a = Some vs" and "\<forall>k. 0 \<le> rnd k \<and> rnd k < 1"
  shows "\<exists>result n' h' vs'.
           getShuffledQuestions rnd n a h = Some (result, n', h')
         \<and> read_dataset h' result = Some vs'
         \<and> mset (map (\<lambda>q. (color q, mset (options q))) vs')
             = mset (map (\<lambda>q. (color q, mset (options q))) vs)
         \<and> take (length h) h' = h
         \<and> read_dataset h' a = Some vs
         \<and> length h \<le> result
         \<and> (\<forall>q\<in>set (question_refs h' result). length h \<le> q
               \<and> (\<exists>opts. options_ref h' q = Some opts \<and> length h \<le> opts))"
proof -
  from getShuffledQuestions_spec[OF assms, of n] obtain result n' ext vs' qs' where
    s: "getShuffledQuestions rnd n a h = Some (result, n', h @ ext)"
       "read_dataset (h @ ext) result = Some vs'"
       "mset (map (\<lambda>q. (color q, mset (options q))) vs')
          = mset (map (\<lambda>q. (color q, mset (options q))) vs)"
       "length h \<le> result"
       "question_refs (h @ ext) result = qs'"
       "\<forall>q\<in>set qs'. length h \<le> q
           \<and> (\<exists>opts. options_ref (h @ ext) q = Some opts \<and> length h \<le> opts)"
    by blast
  have "take (length h) (h @ ext) = h" by simp
  moreover have "read_dataset (h @ ext) a = Some vs"
    by (rule read_dataset_append[OF assms(1)])
  ultimately show ?thesis using s by blast
qed

theorem getShuffledQuestions_permutes_and_copies_witness:
  "read_dataset static_store static_ref = Some staticQuestions
   \<and> (\<forall>k::nat. (0::real) \<le> 1 / 2 \<and> (1::real) / 2 < 1)
   \<and> (\<exists>result n' h' vs'.
         getShuffledQuestions (\<lambda>k. 1 / 2) 0 static_ref static_store = Some (result, n', h')
       \<and> read_dataset h' result = Some vs'
       \<and> mset (map (\<lambda>q. (color q, mset (options q))) vs')
           = mset (map (\<lambda>q. (color q, mset (options q))) staticQuestions)
       \<and> take (length static_store) h' = static_store
       \<and> read_dataset h' static_ref = Some staticQuestions
       \<and> length static_store \<le> result)"
proof -
  have v: "\<forall>k::nat. (0::real) \<le> 1 / 2 \<and> (1::real) / 2 < 1" by simp
  from getShuffledQuestions_permutes_and_copies[OF static_dataset v, of 0]
  show ?thesis using static_dataset v by blast
qed

subsection \<open>C7: the mode table\<close>

text \<open>
  C7. The mode settings that \<open>initializeGameMode\<close> installs depend on the mode
  identifier only, and follow the table: classic has no time limit, a hidden timer and
  1800 ms of feedback; timed has a limit of 60 s, a shown timer and 1000 ms; speed has
  no limit, a shown timer and 800 ms; hard has a limit of 90 s, a shown timer and
  1200 ms; every other identifier gets the settings of classic, and so does a missing
  or empty mode parameter. A time limit starts the countdown at its value; without a
  limit the countdown does not run. In speed mode an unfinished game counts up: the
  callback of its interval sets \<open>timeLeft\<close> to the whole seconds since the start of
  the game, and never finishes the game; in every other mode that callback does
  nothing.
\<close>

theorem initializeGameMode_table:
  "modeSettings (initializeGameMode r)
     = modeSettings (initializeGameMode (initial_enhanced (gameMode r)))
   \<and> modeSettings (initializeGameMode (initial_enhanced ''classic''))
     = \<lparr> timeLimit = None, showTimer = False, autoAdvance = True,
         feedbackDuration = 1800, questionTime = None \<rparr>
   \<and> modeSettings (initializeGameMode (initial_enhanced ''timed''))
     = \<lparr> timeLimit = Some 60, showTimer = True, autoAdvance = True,
         feedbackDuration = 1000, questionTime = None \<rparr>
   \<and> modeSettings (initializeGameMode (initial_enhanced ''speed''))
     = \<lparr> timeLimit = None, showTimer = True, autoAdvance = True,
         feedbackDuration = 800, questionTime = None \<rparr>
   \<and> modeSettings (initializeGameMode (initial_enhanced ''hard''))
     = \<lparr> timeLimit = Some 90, showTimer = True, autoAdvance = True,
         feedbackDuration = 1200, questionTime = Some 15 \<rparr>
   \<and> (m \<notin> {''timed'', ''speed'', ''hard''} \<longrightarrow>
        modeSettings (initializeGameMode (initial_enhanced m))
          = modeSettings (initializeGameMode (initial_enhanced ''classic'')))
   \<and> gameMode_of None = ''classic'' \<and> gameMode_of (Some []) = ''classic''
   \<and> timeLeft (initializeGameMode (initial_enhanced ''timed'')) = 60
   \<and> timeLeft (initializeGameMode (initial_enhanced ''hard'')) = 90
   \<and> countdown_running (initializeGameMode (initial_enhanced ''timed''))
   \<and> countdown_running (initializeGameMode (initial_enhanced ''hard''))
   \<and> (timeLimit (modeSettings (screen w)) = None \<longrightarrow> tick w = w)
   \<and> (gameMode (screen w) \<noteq> ''speed'' \<longrightarrow> speed_tick c w = w)
   \<and> (gameMode (screen w) = ''speed'' \<and> \<not> isFinished (screen w)
        \<and> gameStartTime (screen w) = Some t \<and> t \<noteq> 0 \<longrightarrow>
          timeLeft (screen (speed_tick c w)) = (now c - t) div 1000
          \<and> \<not> isFinished (screen (speed_tick c w))
          \<and> score (screen (speed_tick c w)) = score (screen w)
          \<and> currentIndex (screen (speed_tick c w)) = currentIndex (screen w))
   \<and> (now c0 \<noteq> 0 \<longrightarrow>
          timeLeft (screen (speed_tick c (mount_enhanced (Some ''speed'') qs c0 st)))
            = (now c - now c0) div 1000
          \<and> timeLeft (screen (mount_enhanced (Some ''speed'') qs c0 st)) = 0
          \<and> \<not> countdown_running (screen (mount_enhanced (Some ''speed'') qs c0 st)))"
  by (simp add: initializeGameMode_def initial_enhanced_def gameMode_of_def
      countdown_running_def truthy_nat_def truthy_int_def tick_def speed_tick_def
      mount_enhanced_def)

theorem initializeGameMode_table_witness:
  "''zen'' \<notin> {''timed'', ''speed'', ''hard''}
   \<and> modeSettings (initializeGameMode (initial_enhanced ''zen''))
     = \<lparr> timeLimit = None, showTimer = False, autoAdvance = True,
         feedbackDuration = 1800, questionTime = None \<rparr>
   \<and> timeLimit (modeSettings (screen (mount_enhanced None staticQuestions example_clock None))) = None
   \<and> tick (mount_enhanced None staticQuestions example_clock None)
       = mount_enhanced None staticQuestions example_clock None
   \<and> gameMode (screen (mount_enhanced None staticQuestions example_clock None)) \<noteq> ''speed''
   \<and> speed_tick later_clock (mount_enhanced None staticQuestions example_clock None)
       = mount_enhanced None staticQuestions example_clock None
   \<and> gameMode (screen (mount_enhanced (Some ''speed'') staticQuestions example_clock None))
       = ''speed''
   \<and> \<not> isFinished (screen (mount_enhanced (Some ''speed'') staticQuestions example_clock None))
   \<and> gameStartTime (screen (mount_enhanced (Some ''speed'') staticQuestions example_clock None))
       = Some 1700000000000
   \<and> now example_clock \<noteq> 0
   \<and> timeLeft (screen (speed_tick later_clock
         (mount_enhanced (Some ''speed'') staticQuestions example_clock None))) = 60"
proof -
  have a: "timeLimit (modeSettings (screen (mount_enhanced None staticQuestions example_clock None))) = None"
    "gameMode (screen (mount_enhanced None staticQuestions example_clock None)) \<noteq> ''speed''"
    by (simp_all add: mount_enhanced_def gameMode_of_def initializeGameMode_def initial_enhanced_def)
  have s: "gameMode (screen (mount_enhanced (Some ''speed'') staticQuestions example_clock None))
       = ''speed''"
    "\<not> isFinished (screen (mount_enhanced (Some ''speed'') staticQuestions example_clock None))"
    "gameStartTime (screen (mount_enhanced (Some ''speed'') staticQuestions example_clock None))
       = Some 1700000000000"
    "now example_clock \<noteq> 0" "now example_clock = 1700000000000"
    "(now later_clock - 1700000000000) div 1000 = 60"
    by (simp_all add: mount_enhanced_def gameMode_of_def initializeGameMode_def
        initial_enhanced_def example_clock_def later_clock_def)
  from initializeGameMode_table[where m = "''zen''"
      and w = "mount_enhanced None staticQuestions example_clock None" and c = later_clock]
    initializeGameMode_table[where
      w = "mount_enhanced (Some ''speed'') staticQuestions example_clock None"
      and c = later_clock and t = 1700000000000 and ?c0.0 = example_clock]
  show ?thesis using a s by simp
qed

subsection \<open>C8: the countdown\<close>

text \<open>
  C8. One \<open>Tick\<close> is the callback of the countdown interval, which comes once per
  second. While the countdown runs (a time limit is set, time is left and the game is
  not finished) a tick takes one second off \<open>timeLeft\<close> and leaves the score alone;
  the tick that reaches zero sets \<open>isFinished\<close>, whatever the current question is.
  From \<open>n\<close> seconds left, \<open>n\<close> ticks finish the game with the score it had, and no
  fewer do. Once the game is finished a tick changes nothing. In a session of timed
  or hard mode the countdown runs at every point at which the game is not finished. In
  timed mode, 60 ticks after the mount and without any answer, the game is finished
  with score 0.
\<close>

theorem countdown_forces_finish:
  "(countdown_running (screen w) \<longrightarrow>
      timeLeft (screen (tick w)) = timeLeft (screen w) - 1
      \<and> (isFinished (screen (tick w)) \<longleftrightarrow> timeLeft (screen w) = 1)
      \<and> score (screen (tick w)) = score (screen w)
      \<and> (timeLeft (screen w) = int n \<longrightarrow>
            isFinished (screen (run_enhanced w (replicate n Tick)))
            \<and> score (screen (run_enhanced w (replicate n Tick))) = score (screen w)
            \<and> (\<forall>k<n. \<not> isFinished (screen (run_enhanced w (replicate k Tick))))))
   \<and> (isFinished (screen w) \<longrightarrow> tick w = w)
   \<and> ((m = ''timed'' \<or> m = ''hard'')
        \<and> \<not> isFinished (screen (run_enhanced (mount_enhanced (Some m) qs c st) es))
        \<longrightarrow> countdown_running (screen (run_enhanced (mount_enhanced (Some m) qs c st) es)))
   \<and> isFinished (screen (run_enhanced (mount_enhanced (Some ''timed'') qs c st) (replicate 60 Tick)))
   \<and> score (screen (run_enhanced (mount_enhanced (Some ''timed'') qs c st) (replicate 60 Tick))) = 0"
proof -
  have runs: "(m = ''timed'' \<or> m = ''hard'')
        \<and> \<not> isFinished (screen (run_enhanced (mount_enhanced (Some m) qs c st) es))
        \<longrightarrow> countdown_running (screen (run_enhanced (mount_enhanced (Some m) qs c st) es))"
    using countdown_runs_until_finished[of m qs c st es] by blast
  have fin: "isFinished (screen w) \<Longrightarrow> tick w = w"
    by (simp add: tick_def countdown_running_def)
  have timed: "isFinished (screen (run_enhanced (mount_enhanced (Some ''timed'') qs c st) (replicate 60 Tick)))
     \<and> score (screen (run_enhanced (mount_enhanced (Some ''timed'') qs c st) (replicate 60 Tick))) = 0"
    using countdown_expires[OF mount_timed(1), of qs c st 60] mount_timed(2,3)[of qs c st]
    by simp
  have ticks: "countdown_running (screen w) \<longrightarrow>
      timeLeft (screen (tick w)) = timeLeft (screen w) - 1
      \<and> (isFinished (screen (tick w)) \<longleftrightarrow> timeLeft (screen w) = 1)
      \<and> score (screen (tick w)) = score (screen w)
      \<and> (timeLeft (screen w) = int n \<longrightarrow>
            isFinished (screen (run_enhanced w (replicate n Tick)))
            \<and> score (screen (run_enhanced w (replicate n Tick))) = score (screen w)
            \<and> (\<forall>k<n. \<not> isFinished (screen (run_enhanced w (replicate k Tick)))))"
    using tick_running[of w] countdown_expires[of w n] countdown_not_early[of w n]
    by blast
  from ticks fin runs timed show ?thesis by blast
qed

theorem countdown_forces_finish_witness:
  "countdown_running (screen (mount_enhanced (Some ''hard'') staticQuestions example_clock None))
   \<and> timeLeft (screen (mount_enhanced (Some ''hard'') staticQuestions example_clock None)) = int 90
   \<and> timeLeft (screen (tick (mount_enhanced (Some ''hard'') staticQuestions example_clock None))) = 89
   \<and> isFinished (screen (run_enhanced
         (mount_enhanced (Some ''hard'') staticQuestions example_clock None) (replicate 90 Tick)))
   \<and> \<not> isFinished (screen (run_enhanced
         (mount_enhanced (Some ''hard'') staticQuestions example_clock None) (replicate 89 Tick)))
   \<and> tick (run_enhanced
         (mount_enhanced (Some ''hard'') staticQuestions example_clock None) (replicate 90 Tick))
       = run_enhanced
         (mount_enhanced (Some ''hard'') staticQuestions example_clock None) (replicate 90 Tick)
   \<and> \<not> isFinished (screen (run_enhanced
         (mount_enhanced (Some ''hard'') staticQuestions example_clock None) [Click 0]))
   \<and> countdown_running (screen (run_enhanced
         (mount_enhanced (Some ''hard'') staticQuestions example_clock None) [Click 0]))"
proof -
  let ?w = "mount_enhanced (Some ''hard'') staticQuestions example_clock None"
  have r: "countdown_running (screen ?w)" and t: "timeLeft (screen ?w) = int 90"
    by (simp_all add: mount_enhanced_def gameMode_of_def initializeGameMode_def
        initial_enhanced_def countdown_running_def truthy_nat_def)
  have f90: "isFinished (screen (run_enhanced ?w (replicate 90 Tick)))"
    using countdown_forces_finish[of ?w 90] r t by blast
  have nf: "\<not> isFinished (screen (run_enhanced ?w [Click 0]))"
    by (simp add: example_unfold)
  have cr: "countdown_running (screen (run_enhanced ?w [Click 0]))"
    using countdown_forces_finish[where m = "''hard''" and qs = staticQuestions
        and c = example_clock and st = None and es = "[Click 0]"] nf
    by blast
  show ?thesis
    using countdown_forces_finish[of ?w 90]
      countdown_forces_finish[of "run_enhanced ?w (replicate 90 Tick)" 0] r t f90 nf cr
    by simp
qed

subsection \<open>C9: bounds on score and index\<close>




subsection \<open>C10: a finish by the timer stores nothing\<close>

text \<open>
  C10. A tick of the countdown, and so the tick that finishes the game, leaves the
  stored history and the pending timeouts as they are: no result is built or
  appended. Once the game is finished and no pending timeout belongs to an answer to
  the last question, no later click, timeout or tick changes the stored history.
\<close>

theorem timer_expiry_leaves_history:
  "localStorage (tick w) = localStorage w \<and> timeouts (tick w) = timeouts w
   \<and> (isFinished (screen w) \<and> list_all timer_advances (timeouts w)
        \<longrightarrow> localStorage (run_enhanced w es) = localStorage w)"
  using tick_frame[of w] run_enhanced_finished[of w es] by blast

theorem timer_expiry_leaves_history_witness:
  "isFinished (screen (run_enhanced
       (click_enhanced 0 (mount_enhanced (Some ''timed'') staticQuestions example_clock None))
       (replicate 60 Tick)))
   \<and> timeouts (run_enhanced
       (click_enhanced 0 (mount_enhanced (Some ''timed'') staticQuestions example_clock None))
       (replicate 60 Tick)) \<noteq> []
   \<and> list_all timer_advances (timeouts (run_enhanced
       (click_enhanced 0 (mount_enhanced (Some ''timed'') staticQuestions example_clock None))
       (replicate 60 Tick)))
   \<and> localStorage (run_enhanced (run_enhanced
       (click_enhanced 0 (mount_enhanced (Some ''timed'') staticQuestions example_clock None))
       (replicate 60 Tick)) [Timeout 0 later_clock, Timeout 0 later_clock, Click 0]) = None"
proof -
  let ?w = "click_enhanced 0 (mount_enhanced (Some ''timed'') staticQuestions example_clock None)"
  have r: "countdown_running (screen ?w)" and t: "timeLeft (screen ?w) = int 60"
    and p: "timeouts ?w \<noteq> []" "list_all timer_advances (timeouts ?w)" "localStorage ?w = None"
    by (simp_all add: example_unfold countdown_running_def truthy_nat_def timer_advances_def)
  have f: "isFinished (screen (run_enhanced ?w (replicate 60 Tick)))"
    using countdown_expires[OF r t] by simp
  from timer_expiry_leaves_history[of "run_enhanced ?w (replicate 60 Tick)"
      "[Timeout 0 later_clock, Timeout 0 later_clock, Click 0]"]
  show ?thesis
    using f p by (simp add: run_ticks_frame)
qed

end
